theory Spec2Isabelle
  imports Main "HOL-Library.AList"
begin

section \<open>Strings\<close>

text \<open>
  A JavaScript string is modelled as a \<^typ>\<open>string\<close>. A \<^typ>\<open>char\<close> stands for one
  UTF-16 code unit in the range U+0000 to U+00FF; strings with code units above that
  range are outside the model. A value that may be \<^verbatim>\<open>undefined\<close> or \<^verbatim>\<open>null\<close> is an
  \<^typ>\<open>'a option\<close>.
\<close>

definition is_ws :: "char \<Rightarrow> bool" where
  \<comment> \<open>\<^verbatim>\<open>\s\<close> and the characters removed by \<^verbatim>\<open>String.prototype.trim\<close>:
      TAB, LF, VT, FF, CR, SPACE, NBSP\<close>
  "is_ws c = (c \<in> set [CHR 0x09, CHR 0x0A, CHR 0x0B, CHR 0x0C, CHR 0x0D, CHR 0x20, CHR 0xA0])"

definition is_word :: "char \<Rightarrow> bool" where
  \<comment> \<open>\<^verbatim>\<open>\w\<close> is \<^verbatim>\<open>[A-Za-z0-9_]\<close>\<close>
  "is_word c =
     (let n = of_char c :: nat
      in (65 \<le> n \<and> n \<le> 90) \<or> (97 \<le> n \<and> n \<le> 122) \<or> (48 \<le> n \<and> n \<le> 57) \<or> n = 95)"

definition is_upper :: "char \<Rightarrow> bool" where
  \<comment> \<open>the code units below 256 that \<^verbatim>\<open>toLowerCase\<close> changes: A-Z and U+00C0..U+00DE
      without the multiplication sign U+00D7\<close>
  "is_upper c =
     (let n = of_char c :: nat
      in (65 \<le> n \<and> n \<le> 90) \<or> (192 \<le> n \<and> n \<le> 222 \<and> n \<noteq> 215))"

definition lower_char :: "char \<Rightarrow> char" where
  "lower_char c = (if is_upper c then char_of (of_char c + 32 :: nat) else c)"

definition toLowerCase :: "string \<Rightarrow> string" where
  "toLowerCase s = map lower_char s"

definition trim :: "string \<Rightarrow> string" where
  "trim s = rev (dropWhile is_ws (rev (dropWhile is_ws s)))"

fun join :: "string \<Rightarrow> string list \<Rightarrow> string" where
  "join sep [] = []"
| "join sep [x] = x"
| "join sep (x # y # ys) = x @ sep @ join sep (y # ys)"

definition truthy :: "string option \<Rightarrow> bool" where
  \<comment> \<open>truthiness of a value that is a string, \<^verbatim>\<open>undefined\<close> or \<^verbatim>\<open>null\<close>\<close>
  "truthy v = (case v of None \<Rightarrow> False | Some s \<Rightarrow> s \<noteq> [])"

definition or_empty :: "string option \<Rightarrow> string" where
  \<comment> \<open>\<^verbatim>\<open>v ?? ''\<close>\<close>
  "or_empty v = (case v of None \<Rightarrow> [] | Some s \<Rightarrow> s)"

definition flag :: "bool option \<Rightarrow> bool" where
  \<comment> \<open>truthiness of a value that is a boolean or absent\<close>
  "flag v = (v = Some True)"


section \<open>Rich text to Markdown\<close>

record annotations =
  bold :: "bool option"
  italic :: "bool option"
  code :: "bool option"
  strikethrough :: "bool option"

record rich_text_item =
  plain_text :: "string option"
  annotations :: "annotations option"
  href :: "string option"

definition ann_of :: "rich_text_item \<Rightarrow> (annotations \<Rightarrow> bool option) \<Rightarrow> bool" where
  \<comment> \<open>\<^verbatim>\<open>ann.f\<close> for \<^verbatim>\<open>ann = item.annotations ?? {}\<close>\<close>
  "ann_of item f = (case annotations item of None \<Rightarrow> False | Some a \<Rightarrow> flag (f a))"

definition spanToMarkdown :: "rich_text_item \<Rightarrow> string" where
  \<comment> \<open>the arrow function mapped over the items by \<^verbatim>\<open>richTextToMarkdown\<close>\<close>
  "spanToMarkdown item =
     (let text = or_empty (plain_text item)
      in if text = [] then []
         else
           let text = (if ann_of item code then ''`'' @ text @ ''`'' else text);
               text = (if ann_of item bold \<and> ann_of item italic then ''***'' @ text @ ''***''
                       else if ann_of item bold then ''**'' @ text @ ''**''
                       else if ann_of item italic then ''*'' @ text @ ''*''
                       else text);
               text = (if ann_of item strikethrough then ''~~'' @ text @ ''~~'' else text);
               text = (if truthy (href item)
                       then ''['' @ text @ ''](''  @ the (href item) @ '')'' else text)
           in text)"

definition richTextToMarkdown :: "rich_text_item list option \<Rightarrow> string" where
  \<comment> \<open>the parameter defaults to the empty array when it is \<^verbatim>\<open>undefined\<close>\<close>
  "richTextToMarkdown richText =
     concat (map spanToMarkdown (case richText of None \<Rightarrow> [] | Some xs \<Rightarrow> xs))"


section \<open>Blocks to Markdown\<close>

record url_ref =
  url :: "string option"

record icon_obj =
  emoji :: "string option"

text \<open>
  A file object, as found in a files property and as the payload of an image or video
  block. The field \<open>data_type\<close> is the source's \<^verbatim>\<open>data.type\<close>.
\<close>

record file_object =
  data_type :: "string option"
  external :: "url_ref option"
  "file" :: "url_ref option"

text \<open>
  The payload of a block, \<^verbatim>\<open>block[block.type]\<close>: an object whose fields may each be
  absent. The field \<open>data_url\<close> is the source's \<^verbatim>\<open>data.url\<close>.
\<close>

record block_data = file_object +
  rich_text :: "rich_text_item list option"
  checked :: "bool option"
  language :: "string option"
  caption :: "rich_text_item list option"
  icon :: "icon_obj option"
  data_url :: "string option"

record block =
  type :: string
  data :: "block_data option"

definition opt_url :: "url_ref option \<Rightarrow> string option" where
  \<comment> \<open>\<^verbatim>\<open>r?.url\<close>\<close>
  "opt_url r = (case r of None \<Rightarrow> None | Some u \<Rightarrow> url u)"

definition media_url :: "block_data \<Rightarrow> string" where
  \<comment> \<open>the \<^verbatim>\<open>url\<close> of the image and video cases\<close>
  "media_url d =
     (if data_type d = Some ''external'' then or_empty (opt_url (external d))
      else or_empty (opt_url (file d)))"

definition play_glyph :: string where
  \<comment> \<open>stands for the single character U+25B6 of the video link text\<close>
  "play_glyph = [CHR 0xE2, CHR 0x96, CHR 0xB6]"

definition blockToMarkdown :: "block \<Rightarrow> string option" where
  \<comment> \<open>\<open>None\<close> is the source's \<^verbatim>\<open>null\<close>\<close>
  "blockToMarkdown block =
     (case data block of
        None \<Rightarrow> None
      | Some d \<Rightarrow>
          if type block = ''paragraph'' then Some (richTextToMarkdown (rich_text d))
          else if type block = ''heading_1'' then Some (''# '' @ richTextToMarkdown (rich_text d))
          else if type block = ''heading_2'' then Some (''## '' @ richTextToMarkdown (rich_text d))
          else if type block = ''heading_3'' then Some (''### '' @ richTextToMarkdown (rich_text d))
          else if type block = ''bulleted_list_item''
            then Some (''- '' @ richTextToMarkdown (rich_text d))
          else if type block = ''numbered_list_item''
            then Some (''1. '' @ richTextToMarkdown (rich_text d))
          else if type block = ''to_do''
            then Some (''- ['' @ (if flag (checked d) then ''x'' else '' '') @ ''] ''
                       @ richTextToMarkdown (rich_text d))
          else if type block = ''code'' then
            (let lang = (if truthy (language d) \<and> language d \<noteq> Some ''plain text''
                         then the (language d) else []);
                 code = concat (map (\<lambda>r. or_empty (plain_text r))
                                 (case rich_text d of None \<Rightarrow> [] | Some xs \<Rightarrow> xs));
                 caption = richTextToMarkdown (Some (case caption d of None \<Rightarrow> [] | Some xs \<Rightarrow> xs));
                 block_md = ''```'' @ lang @ [CHR 0x0A] @ code @ [CHR 0x0A] @ ''```''
             in Some (if caption \<noteq> [] then block_md @ [CHR 0x0A] @ ''*'' @ caption @ ''*''
                      else block_md))
          else if type block = ''quote'' then Some (''> '' @ richTextToMarkdown (rich_text d))
          else if type block = ''callout'' then
            (let icon = (if truthy (case icon d of None \<Rightarrow> None | Some i \<Rightarrow> emoji i)
                         then the (emoji (the (icon d))) @ '' '' else [])
             in Some (''> '' @ icon @ richTextToMarkdown (rich_text d)))
          else if type block = ''divider'' then Some ''---''
          else if type block = ''image'' then
            (let url = media_url d;
                 caption = richTextToMarkdown (Some (case caption d of None \<Rightarrow> [] | Some xs \<Rightarrow> xs))
             in Some (''!['' @ caption @ ''](''  @ url @ '')''))
          else if type block = ''video'' then
            (let url = media_url d;
                 caption = richTextToMarkdown (Some (case caption d of None \<Rightarrow> [] | Some xs \<Rightarrow> xs))
             in Some (if caption \<noteq> []
                      then ''['' @ play_glyph @ '' '' @ caption @ ''](''  @ url @ '')''
                      else ''['' @ play_glyph @ '' Watch video](''  @ url @ '')''))
          else if type block = ''bookmark'' \<or> type block = ''link_preview'' then
            (let url = or_empty (data_url d)
             in Some (''['' @ url @ ''](''  @ url @ '')''))
          else if type block = ''toggle'' then
            Some (''<details>'' @ [CHR 0x0A] @ ''<summary>'' @ richTextToMarkdown (rich_text d)
                  @ ''</summary>'' @ [CHR 0x0A, CHR 0x0A] @ ''</details>'')
          else if type block = ''table_of_contents'' then Some []
          else if type block = ''child_page'' \<or> type block = ''child_database'' then None
          else None)"

definition LIST_TYPES :: "string set" where
  "LIST_TYPES = {''bulleted_list_item'', ''numbered_list_item'', ''to_do''}"

definition blocksToMarkdown_step :: "block list \<Rightarrow> nat \<Rightarrow> string list \<Rightarrow> string list" where
  \<comment> \<open>the body of the \<^verbatim>\<open>for\<close> loop at index \<open>i\<close>, which is below \<open>length blocks\<close>\<close>
  "blocksToMarkdown_step blocks i lines =
     (let block = blocks ! i
      in case blockToMarkdown block of
           None \<Rightarrow> lines
         | Some md \<Rightarrow>
             let prevBlock = (if i > 0 then Some (blocks ! (i - 1)) else None);
                 isList = (type block \<in> LIST_TYPES);
                 prevIsList = (case prevBlock of None \<Rightarrow> False | Some p \<Rightarrow> type p \<in> LIST_TYPES);
                 lines = (if length lines > 0 \<and> \<not> (isList \<and> prevIsList)
                          then lines @ [[]] else lines);
                 lines = (if md \<noteq> [] then lines @ [md] else lines)
             in lines)"

definition blocksToMarkdown_lines :: "block list \<Rightarrow> string list" where
  \<comment> \<open>the array \<^verbatim>\<open>lines\<close> when the loop ends\<close>
  "blocksToMarkdown_lines blocks = fold (blocksToMarkdown_step blocks) [0..<length blocks] []"

definition blocksToMarkdown :: "block list \<Rightarrow> string" where
  "blocksToMarkdown blocks = trim (join [CHR 0x0A] (blocksToMarkdown_lines blocks))"


section \<open>Metadata extraction\<close>

definition strip_chars :: "string \<Rightarrow> string" where
  \<comment> \<open>\<^verbatim>\<open>.replace(/[^\w\s-]/g, '')\<close>\<close>
  "strip_chars s = filter (\<lambda>c. is_word c \<or> is_ws c \<or> c = CHR ''-'') s"

function replace_runs :: "(char \<Rightarrow> bool) \<Rightarrow> string \<Rightarrow> string \<Rightarrow> string" where
  \<comment> \<open>\<^verbatim>\<open>.replace(/P+/g, r)\<close>: every maximal run of characters in \<open>P\<close> becomes \<open>r\<close>\<close>
  "replace_runs P r [] = []"
| "replace_runs P r (c # cs) =
     (if P c then r @ replace_runs P r (dropWhile P cs) else c # replace_runs P r cs)"
  by pat_completeness auto
termination
  by (relation "measure (\<lambda>(P, r, s). length s)") (auto simp: length_dropWhile_le less_Suc_eq_le)

definition is_hyphen :: "char \<Rightarrow> bool" where
  "is_hyphen c = (c = CHR ''-'')"

definition strip_ends :: "string \<Rightarrow> string" where
  \<comment> \<open>\<^verbatim>\<open>.replace(/^-|-$/g, '')\<close>: one hyphen at the start and one at the end\<close>
  "strip_ends s =
     (let s = (if s \<noteq> [] \<and> hd s = CHR ''-'' then tl s else s)
      in if s \<noteq> [] \<and> last s = CHR ''-'' then butlast s else s)"

definition titleToSlug :: "string \<Rightarrow> string" where
  "titleToSlug title =
     strip_ends
       (replace_runs is_hyphen ''-''
          (replace_runs is_ws ''-''
             (trim (strip_chars (toLowerCase title)))))"

record date_obj =
  start :: "string option"

record tag =
  name :: string

text \<open>
  The value of one page property. The fields \<open>p_title\<close>, \<open>p_rich_text\<close>, \<open>p_date\<close>,
  \<open>p_multi_select\<close>, \<open>p_files\<close>, \<open>p_url\<close> and \<open>p_checkbox\<close> are the source's
  \<^verbatim>\<open>title\<close>, \<^verbatim>\<open>rich_text\<close>, \<^verbatim>\<open>date\<close>, \<^verbatim>\<open>multi_select\<close>, \<^verbatim>\<open>files\<close>, \<^verbatim>\<open>url\<close> and
  \<^verbatim>\<open>checkbox\<close>.
\<close>

record property =
  p_title :: "rich_text_item list option"
  p_rich_text :: "rich_text_item list option"
  p_date :: "date_obj option"
  p_multi_select :: "tag list option"
  p_files :: "file_object list option"
  p_url :: "string option"
  p_checkbox :: "bool option"

text \<open>A page record; \<open>page_id\<close> is the source's \<^verbatim>\<open>page.id\<close>.\<close>

record page =
  page_id :: string
  properties :: "(string \<rightharpoonup> property) option"

record meta =
  title :: string
  slug :: string
  date :: string
  tags :: "string list"
  description :: string
  coverImage :: string
  canonicalUrl :: string
  featured :: bool

datatype error = TypeError | ApiError string | FsError string

definition coalesce :: "'a option \<Rightarrow> 'a option \<Rightarrow> 'a option" where
  \<comment> \<open>\<^verbatim>\<open>a ?? b\<close>\<close>
  "coalesce a b = (case a of None \<Rightarrow> b | Some x \<Rightarrow> Some x)"

definition first_plain_text :: "rich_text_item list option \<Rightarrow> string option" where
  \<comment> \<open>\<^verbatim>\<open>xs?.[0]?.plain_text\<close>\<close>
  "first_plain_text xs =
     (case xs of None \<Rightarrow> None | Some [] \<Rightarrow> None | Some (x # _) \<Rightarrow> plain_text x)"

definition extractMeta :: "string \<Rightarrow> page \<Rightarrow> error + meta" where
  \<comment> \<open>\<open>today\<close> is \<^verbatim>\<open>new Date().toISOString().split('T')[0]\<close>; reading a property of an
      absent property bag throws\<close>
  "extractMeta today page =
     (case properties page of
        None \<Rightarrow> Inl TypeError
      | Some props \<Rightarrow>
          let titleProp = coalesce (props ''Title'') (coalesce (props ''title'') (props ''Name''));
              title = (case coalesce (first_plain_text (Option.bind titleProp p_title))
                                     (first_plain_text (Option.bind titleProp p_rich_text)) of
                         None \<Rightarrow> ''Untitled'' | Some t \<Rightarrow> t);
              slugProp = coalesce (props ''Slug'') (props ''slug'');
              slug = (case map_option trim (first_plain_text (Option.bind slugProp p_rich_text)) of
                        None \<Rightarrow> titleToSlug title
                      | Some s \<Rightarrow> if s \<noteq> [] then s else titleToSlug title);
              dateProp = coalesce (props ''Publish Date'')
                           (coalesce (props ''Date'') (props ''Published''));
              date = (case Option.bind (Option.bind dateProp p_date) start of
                        None \<Rightarrow> today | Some d \<Rightarrow> d);
              tags = map name (case Option.bind (props ''Tags'') p_multi_select of
                                 None \<Rightarrow> [] | Some ts \<Rightarrow> ts);
              descProp = coalesce (props ''Description'')
                           (coalesce (props ''Excerpt'') (props ''Summary''));
              description = or_empty (map_option trim
                              (first_plain_text (Option.bind descProp p_rich_text)));
              coverFiles = (case Option.bind (props ''Cover Image'') p_files of
                              None \<Rightarrow> [] | Some fs \<Rightarrow> fs);
              coverImage = or_empty
                 (case coverFiles of
                    [] \<Rightarrow> None
                  | f # _ \<Rightarrow> coalesce (opt_url (external f)) (opt_url (file f)));
              canonicalUrl = or_empty (Option.bind (props ''Canonical URL'') p_url);
              featured = (case Option.bind (props ''Featured'') p_checkbox of
                            None \<Rightarrow> False | Some b \<Rightarrow> b)
          in Inr \<lparr>title = title, slug = slug, date = date, tags = tags,
                  description = description, coverImage = coverImage,
                  canonicalUrl = canonicalUrl, featured = featured\<rparr>)"


section \<open>Front matter\<close>

definition hex_digit :: "nat \<Rightarrow> char" where
  "hex_digit n = ''0123456789abcdef'' ! (n mod 16)"

definition json_escape :: "char \<Rightarrow> string" where
  \<comment> \<open>one character inside the quotes of \<^verbatim>\<open>JSON.stringify\<close>\<close>
  "json_escape c =
     (if c = CHR 0x22 then [CHR 0x5C, CHR 0x22]
      else if c = CHR 0x5C then [CHR 0x5C, CHR 0x5C]
      else if c = CHR 0x08 then [CHR 0x5C, CHR ''b'']
      else if c = CHR 0x0C then [CHR 0x5C, CHR ''f'']
      else if c = CHR 0x0A then [CHR 0x5C, CHR ''n'']
      else if c = CHR 0x0D then [CHR 0x5C, CHR ''r'']
      else if c = CHR 0x09 then [CHR 0x5C, CHR ''t'']
      else if (of_char c :: nat) < 32
        then [CHR 0x5C, CHR ''u'', CHR ''0'', CHR ''0'',
              hex_digit (of_char c div 16), hex_digit (of_char c)]
      else [c])"

definition JSON_stringify :: "string \<Rightarrow> string" where
  "JSON_stringify s = [CHR 0x22] @ concat (map json_escape s) @ [CHR 0x22]"

definition buildFrontMatter :: "meta \<Rightarrow> string \<Rightarrow> string" where
  "buildFrontMatter meta notionId =
     (let lines = [''---''];
          lines = lines @ [''layout: post''];
          lines = lines @ [''title: '' @ JSON_stringify (title meta)];
          lines = lines @ [''date: '' @ date meta];
          lines = lines @ [''slug: '' @ slug meta];
          lines = (if length (tags meta) > 0
                   then lines @ [''tags: ['' @ join '', '' (map JSON_stringify (tags meta)) @ '']'']
                   else lines);
          lines = (if description meta \<noteq> []
                   then lines @ [''excerpt: '' @ JSON_stringify (description meta)] else lines);
          lines = (if coverImage meta \<noteq> []
                   then lines @ [''cover_image: '' @ JSON_stringify (coverImage meta)] else lines);
          lines = (if canonicalUrl meta \<noteq> []
                   then lines @ [''canonical_url: '' @ JSON_stringify (canonicalUrl meta)]
                   else lines);
          lines = (if featured meta then lines @ [''featured: true''] else lines);
          lines = lines @ [''notion_id: '' @ JSON_stringify notionId];
          lines = lines @ [''---'']
      in join [CHR 0x0A] lines)"

definition postFilename :: "string \<Rightarrow> string \<Rightarrow> string" where
  "postFilename d s = d @ ''-'' @ s @ ''.md''"

definition file_content :: "string \<Rightarrow> string \<Rightarrow> string" where
  \<comment> \<open>the template \<^verbatim>\<open>`${fm}\n\n${body}\n`\<close> of \<^verbatim>\<open>main\<close>\<close>
  "file_content fm body = fm @ [CHR 0x0A, CHR 0x0A] @ body @ [CHR 0x0A]"


section \<open>The index of existing posts\<close>

definition is_line_terminator :: "char \<Rightarrow> bool" where
  \<comment> \<open>where \<^verbatim>\<open>^\<close> matches under the \<^verbatim>\<open>m\<close> flag: after LF or CR\<close>
  "is_line_terminator c = (c = CHR 0x0A \<or> c = CHR 0x0D)"

definition is_id_char :: "char \<Rightarrow> bool" where
  \<comment> \<open>\<^verbatim>\<open>[a-f0-9-]\<close>\<close>
  "is_id_char c = (c \<in> set ''abcdef0123456789-'')"

definition match_notion_id_at :: "string \<Rightarrow> string option" where
  \<comment> \<open>\<^verbatim>\<open>notion_id:\s*"?([a-f0-9-]{36})"?\<close> against a prefix of \<open>s\<close>; the result is group 1.
      No character of the token class is a space or a quote, so the greedy choices of
      \<^verbatim>\<open>\s*\<close> and \<^verbatim>\<open>"?\<close> are the only ones that can succeed.\<close>
  "match_notion_id_at s =
     (if take 10 s = ''notion_id:'' then
        let r = dropWhile is_ws (drop 10 s);
            r = (if r \<noteq> [] \<and> hd r = CHR 0x22 then tl r else r)
        in if length r \<ge> 36 \<and> list_all is_id_char (take 36 r) then Some (take 36 r) else None
      else None)"

fun find_notion_id :: "bool \<Rightarrow> string \<Rightarrow> string option" where
  \<comment> \<open>the leftmost match; the flag says whether the position is the start of a line\<close>
  "find_notion_id at_start [] = None"
| "find_notion_id at_start (c # cs) =
     (case (if at_start then match_notion_id_at (c # cs) else None) of
        Some t \<Rightarrow> Some t
      | None \<Rightarrow> find_notion_id (is_line_terminator c) cs)"

definition extract_notion_id :: "string \<Rightarrow> string option" where
  \<comment> \<open>\<^verbatim>\<open>content.match(/^notion_id:\s*"?([a-f0-9-]{36})"?/m)\<close>, group 1\<close>
  "extract_notion_id content = find_notion_id True content"


section \<open>Paginated fetching\<close>

record 'a response =
  results :: "'a list"
  has_more :: bool
  next_cursor :: "string option"

text \<open>
  A listing operation of the remote API takes the start cursor (\<open>None\<close> on the first
  call) and returns a response or throws. The \<^verbatim>\<open>do ... while (cursor)\<close> loop of
  \<^verbatim>\<open>fetchAllBlocks\<close> and \<^verbatim>\<open>fetchPublishedPages\<close> may run forever, which is the value
  \<open>None\<close>.
\<close>

partial_function (option) fetch_loop ::
  "(string option \<Rightarrow> error + 'a response) \<Rightarrow> string option \<Rightarrow> 'a list \<Rightarrow> (error + 'a list) option"
where
  "fetch_loop list cursor acc =
     (case list cursor of
        Inl e \<Rightarrow> Some (Inl e)
      | Inr res \<Rightarrow>
          (if truthy (if has_more res then next_cursor res else None)
           then fetch_loop list (if has_more res then next_cursor res else None) (acc @ results res)
           else Some (Inr (acc @ results res))))"

declare fetch_loop.simps [code]

record world =
  databases_query :: "string option \<Rightarrow> error + page response"
  blocks_children_list :: "string \<Rightarrow> string option \<Rightarrow> error + block response"
  today :: string

definition fetchAllBlocks :: "world \<Rightarrow> string \<Rightarrow> (error + block list) option" where
  "fetchAllBlocks w blockId = fetch_loop (blocks_children_list w blockId) None []"

definition fetchPublishedPages :: "world \<Rightarrow> (error + page list) option" where
  "fetchPublishedPages w = fetch_loop (databases_query w) None []"


section \<open>The posts directory\<close>

text \<open>
  The posts directory is an association list from file name to entry, in the order of
  \<^verbatim>\<open>readdirSync\<close>. \<^verbatim>\<open>path.join(POSTS_DIR, filename)\<close> is the file name itself: the model
  covers file names without path separators. The directory itself exists and can be
  listed. An entry is a regular file with its content or a directory; reading, writing
  or unlinking a directory throws.
\<close>

datatype entry = File string | Dir

type_synonym fs = "(string \<times> entry) list"

definition valid_path :: "string \<Rightarrow> bool" where
  \<comment> \<open>a path with a NUL character is rejected by every call of \<^verbatim>\<open>fs\<close>\<close>
  "valid_path f = (CHR 0x00 \<notin> set f)"

definition readdirSync :: "fs \<Rightarrow> string list" where
  "readdirSync d = map fst d"

definition readFileSync :: "fs \<Rightarrow> string \<Rightarrow> error + string" where
  "readFileSync d f =
     (if \<not> valid_path f then Inl (FsError ''ERR_INVALID_ARG_VALUE'')
      else case map_of d f of
             Some (File c) \<Rightarrow> Inr c
           | Some Dir \<Rightarrow> Inl (FsError ''EISDIR'')
           | None \<Rightarrow> Inl (FsError ''ENOENT''))"

definition existsSync :: "fs \<Rightarrow> string \<Rightarrow> bool" where
  \<comment> \<open>never throws: an invalid path does not exist\<close>
  "existsSync d f = (valid_path f \<and> map_of d f \<noteq> None)"

definition writeFileSync :: "fs \<Rightarrow> string \<Rightarrow> string \<Rightarrow> error + fs" where
  "writeFileSync d f c =
     (if \<not> valid_path f then Inl (FsError ''ERR_INVALID_ARG_VALUE'')
      else case map_of d f of
             Some Dir \<Rightarrow> Inl (FsError ''EISDIR'')
           | _ \<Rightarrow> Inr (AList.update f (File c) d))"

definition unlinkSync :: "fs \<Rightarrow> string \<Rightarrow> error + fs" where
  "unlinkSync d f =
     (if \<not> valid_path f then Inl (FsError ''ERR_INVALID_ARG_VALUE'')
      else case map_of d f of
             Some (File c) \<Rightarrow> Inr (AList.delete f d)
           | Some Dir \<Rightarrow> Inl (FsError ''EPERM'')
           | None \<Rightarrow> Inl (FsError ''ENOENT''))"

definition try_unlink :: "fs \<Rightarrow> string \<Rightarrow> fs" where
  \<comment> \<open>\<^verbatim>\<open>try { fs.unlinkSync(...) } catch { }\<close>\<close>
  "try_unlink d f = (case unlinkSync d f of Inl e \<Rightarrow> d | Inr d' \<Rightarrow> d')"

definition endsWith :: "string \<Rightarrow> string \<Rightarrow> bool" where
  "endsWith s suf = (length suf \<le> length s \<and> drop (length s - length suf) s = suf)"


section \<open>The reconciliation pass\<close>

record stats =
  created :: nat
  updated :: nat
  unchanged :: nat
  errors :: nat

record sync_state =
  fs :: fs
  stats :: stats
  processedIds :: "string set"

definition index_file :: "fs \<Rightarrow> string \<Rightarrow> (string \<times> string) list \<Rightarrow> (string \<times> string) list" where
  \<comment> \<open>the body of the indexing loop; a file that cannot be read is skipped\<close>
  "index_file d f notionIdToFile =
     (case readFileSync d f of
        Inl e \<Rightarrow> notionIdToFile
      | Inr content \<Rightarrow>
          (case extract_notion_id content of
             None \<Rightarrow> notionIdToFile
           | Some t \<Rightarrow> AList.update t f notionIdToFile))"

definition build_index :: "fs \<Rightarrow> string list \<Rightarrow> (string \<times> string) list" where
  \<comment> \<open>the \<^verbatim>\<open>Map\<close> \<^verbatim>\<open>notionIdToFile\<close>, in insertion order\<close>
  "build_index d existingFiles = fold (index_file d) existingFiles []"

definition count_error :: "sync_state \<Rightarrow> sync_state" where
  \<comment> \<open>\<^verbatim>\<open>stats.errors++\<close>\<close>
  "count_error st = st\<lparr>stats := (stats st)\<lparr>errors := errors (stats st) + 1\<rparr>\<rparr>"

definition write_page ::
  "string list \<Rightarrow> (string \<times> string) list \<Rightarrow> string \<Rightarrow> string \<Rightarrow> string \<Rightarrow> sync_state \<Rightarrow> sync_state"
where
  \<comment> \<open>the second \<^verbatim>\<open>try\<close> block of the loop body from the rename check on, for the page
      \<open>pid\<close> with its target file name and candidate content\<close>
  "write_page existingFiles notionIdToFile pid filename content st =
     (let prevFilename = map_of notionIdToFile pid;
          d = (if truthy prevFilename \<and> prevFilename \<noteq> Some filename
               then try_unlink (fs st) (the prevFilename) else fs st);
          st = st\<lparr>fs := d\<rparr>
      in case (if existsSync d filename
               then (case readFileSync d filename of
                       Inl e \<Rightarrow> Inl e | Inr existing \<Rightarrow> Inr (existing \<noteq> content))
               else Inr True) of
           Inl e \<Rightarrow> count_error st
         | Inr needsWrite \<Rightarrow>
             if needsWrite then
               (case writeFileSync d filename content of
                  Inl e \<Rightarrow> count_error st
                | Inr d' \<Rightarrow>
                    let isNew = (\<not> truthy prevFilename \<and> filename \<notin> set existingFiles)
                    in if isNew
                       then st\<lparr>fs := d', stats := (stats st)\<lparr>created := created (stats st) + 1\<rparr>\<rparr>
                       else st\<lparr>fs := d', stats := (stats st)\<lparr>updated := updated (stats st) + 1\<rparr>\<rparr>)
             else st\<lparr>stats := (stats st)\<lparr>unchanged := unchanged (stats st) + 1\<rparr>\<rparr>)"

definition process_page ::
  "world \<Rightarrow> string list \<Rightarrow> (string \<times> string) list \<Rightarrow> page \<Rightarrow> sync_state \<Rightarrow> sync_state option"
where
  \<comment> \<open>one iteration of the loop over the published pages; \<open>None\<close> when the block fetch
      never returns\<close>
  "process_page w existingFiles notionIdToFile page st =
     (let st = st\<lparr>processedIds := insert (page_id page) (processedIds st)\<rparr>
      in case extractMeta (today w) page of
           Inl e \<Rightarrow> Some (count_error st)
         | Inr meta \<Rightarrow>
             (case fetchAllBlocks w (page_id page) of
                None \<Rightarrow> None
              | Some (Inl e) \<Rightarrow> Some (count_error st)
              | Some (Inr blocks) \<Rightarrow>
                  let body = blocksToMarkdown blocks;
                      fm = buildFrontMatter meta (page_id page);
                      content = file_content fm body;
                      filename = postFilename (date meta) (slug meta)
                  in Some (write_page existingFiles notionIdToFile (page_id page)
                             filename content st)))"

fun process_pages ::
  "world \<Rightarrow> string list \<Rightarrow> (string \<times> string) list \<Rightarrow> page list \<Rightarrow> sync_state \<Rightarrow> sync_state option"
where
  "process_pages w existingFiles notionIdToFile [] st = Some st"
| "process_pages w existingFiles notionIdToFile (page # pages) st =
     (case process_page w existingFiles notionIdToFile page st of
        None \<Rightarrow> None
      | Some st' \<Rightarrow> process_pages w existingFiles notionIdToFile pages st')"

definition remove_stale :: "(string \<times> string) list \<Rightarrow> string set \<Rightarrow> fs \<Rightarrow> fs" where
  \<comment> \<open>the loop that removes the posts that are no longer published\<close>
  "remove_stale notionIdToFile processed d =
     fold (\<lambda>(notionId, filename) d. if notionId \<notin> processed then try_unlink d filename else d)
       notionIdToFile d"

record outcome =
  exit_code :: nat
  out_fs :: fs
  out_stats :: "stats option"
  reported_existing :: "nat option"

definition initial_state :: "fs \<Rightarrow> sync_state" where
  "initial_state d =
     \<lparr>fs = d, stats = \<lparr>created = 0, updated = 0, unchanged = 0, errors = 0\<rparr>, processedIds = {}\<rparr>"

definition main :: "world \<Rightarrow> fs \<Rightarrow> outcome option" where
  \<comment> \<open>\<open>reported_existing\<close> is the number printed for the existing posts; \<open>out_stats\<close> is
      the printed summary, absent when the pass is abandoned; the result is \<open>None\<close> when
      a fetch never returns\<close>
  "main w d =
     (let existingFiles = filter (\<lambda>f. endsWith f ''.md'') (readdirSync d);
          notionIdToFile = build_index d existingFiles
      in case fetchPublishedPages w of
           None \<Rightarrow> None
         | Some (Inl e) \<Rightarrow>
             Some \<lparr>exit_code = 1, out_fs = d, out_stats = None,
                    reported_existing = Some (length existingFiles)\<rparr>
         | Some (Inr publishedPages) \<Rightarrow>
             (case process_pages w existingFiles notionIdToFile publishedPages (initial_state d) of
                None \<Rightarrow> None
              | Some st \<Rightarrow>
                  Some \<lparr>exit_code = (if errors (stats st) > 0 then 1 else 0),
                         out_fs = remove_stale notionIdToFile (processedIds st) (fs st),
                         out_stats = Some (stats st),
                         reported_existing = Some (length existingFiles)\<rparr>))"

definition run :: "string option \<Rightarrow> string option \<Rightarrow> world \<Rightarrow> fs \<Rightarrow> outcome option" where
  \<comment> \<open>the script: the two environment variables are checked before \<^verbatim>\<open>main\<close> runs\<close>
  "run NOTION_TOKEN DATABASE_ID w d =
     (if \<not> truthy NOTION_TOKEN \<or> \<not> truthy DATABASE_ID
      then Some \<lparr>exit_code = 1, out_fs = d, out_stats = None, reported_existing = None\<rparr>
      else main w d)"


section \<open>Notions used in the statements\<close>

subsection \<open>The layers of a formatted span\<close>

definition wrap_code :: "bool \<Rightarrow> string \<Rightarrow> string" where
  "wrap_code c t = (if c then ''`'' @ t @ ''`'' else t)"

definition wrap_emphasis :: "bool \<Rightarrow> bool \<Rightarrow> string \<Rightarrow> string" where
  "wrap_emphasis b i t =
     (if b \<and> i then ''***'' @ t @ ''***''
      else if b then ''**'' @ t @ ''**''
      else if i then ''*'' @ t @ ''*''
      else t)"

definition wrap_strikethrough :: "bool \<Rightarrow> string \<Rightarrow> string" where
  "wrap_strikethrough s t = (if s then ''~~'' @ t @ ''~~'' else t)"

definition wrap_link :: "string option \<Rightarrow> string \<Rightarrow> string" where
  "wrap_link h t =
     (case h of None \<Rightarrow> t | Some u \<Rightarrow> if u = [] then t else ''['' @ t @ ''](''  @ u @ '')'')"

subsection \<open>A listing split across cursor pages\<close>

text \<open>
  \<open>splits_into list cursor chunks\<close>: asked at \<open>cursor\<close>, the listing answers with the
  first chunk; every response but the last says that there is more and names a
  (non-empty) cursor at which the listing answers with the next chunk; the last
  response says that there is no more.
\<close>

fun splits_into ::
  "(string option \<Rightarrow> error + 'a response) \<Rightarrow> string option \<Rightarrow> 'a list list \<Rightarrow> bool"
where
  "splits_into list cursor [] = False"
| "splits_into list cursor [items] =
     (case list cursor of
        Inl e \<Rightarrow> False
      | Inr res \<Rightarrow> results res = items \<and> \<not> has_more res)"
| "splits_into list cursor (items # rest) =
     (case list cursor of
        Inl e \<Rightarrow> False
      | Inr res \<Rightarrow> results res = items \<and> has_more res \<and> truthy (next_cursor res)
                   \<and> splits_into list (next_cursor res) rest)"


subsection \<open>The pass\<close>

definition existing_md :: "fs \<Rightarrow> string list" where
  \<comment> \<open>\<^verbatim>\<open>existingFiles\<close> of \<^verbatim>\<open>main\<close>\<close>
  "existing_md d = filter (\<lambda>f. endsWith f ''.md'') (readdirSync d)"

definition existing_index :: "fs \<Rightarrow> (string \<times> string) list" where
  \<comment> \<open>\<^verbatim>\<open>notionIdToFile\<close> of \<^verbatim>\<open>main\<close>\<close>
  "existing_index d = build_index d (existing_md d)"




definition page_written :: "world \<Rightarrow> page \<Rightarrow> fs \<Rightarrow> bool" where
  \<comment> \<open>the page's target file holds the page's candidate content\<close>
  "page_written w page d =
     (case extractMeta (today w) page of
        Inl e \<Rightarrow> False
      | Inr meta \<Rightarrow>
          (case fetchAllBlocks w (page_id page) of
             Some (Inr blocks) \<Rightarrow>
               readFileSync d (postFilename (date meta) (slug meta)) =
                 Inr (file_content (buildFrontMatter meta (page_id page)) (blocksToMarkdown blocks))
           | _ \<Rightarrow> False))"


subsection \<open>Media URLs\<close>

definition external_first :: "'a file_object_scheme \<Rightarrow> string" where
  \<comment> \<open>the external URL if there is one, else the hosted-file URL, else the empty string\<close>
  "external_first f = or_empty (coalesce (opt_url (external f)) (opt_url (file f)))"

definition tag_consistent :: "'a file_object_scheme \<Rightarrow> bool" where
  \<comment> \<open>the external URL is present exactly when the storage type says \<^verbatim>\<open>external\<close>\<close>
  "tag_consistent f =
     (if data_type f = Some ''external'' then opt_url (external f) \<noteq> None
      else opt_url (external f) = None)"

subsection \<open>Slugs and file names\<close>

definition rstrip :: "(char \<Rightarrow> bool) \<Rightarrow> string \<Rightarrow> string" where
  "rstrip P s = rev (dropWhile P (rev s))"

definition trim_hyphens :: "string \<Rightarrow> string" where
  \<comment> \<open>without its leading and trailing hyphens\<close>
  "trim_hyphens s = rev (dropWhile is_hyphen (rev (dropWhile is_hyphen s)))"

definition slugify_spec :: "string \<Rightarrow> string" where
  \<comment> \<open>the slugification in the words of the specification: lowercase, strip the
      characters that are no word character, whitespace or hyphen, turn each whitespace
      run into one hyphen, collapse repeated hyphens, trim leading and trailing hyphens\<close>
  "slugify_spec t =
     trim_hyphens
       (replace_runs is_hyphen ''-''
          (replace_runs is_ws ''-''
             (strip_chars (toLowerCase t))))"

definition page_filename :: "string \<Rightarrow> page \<Rightarrow> error + string" where
  \<comment> \<open>the \<^verbatim>\<open>filename\<close> that \<^verbatim>\<open>main\<close> computes for a page\<close>
  "page_filename t p =
     (case extractMeta t p of Inl e \<Rightarrow> Inl e | Inr m \<Rightarrow> Inr (postFilename (date m) (slug m)))"

subsection \<open>The header and the identity token\<close>

definition header_lines :: "meta \<Rightarrow> string list" where
  \<comment> \<open>the lines of the front matter before the \<^verbatim>\<open>notion_id\<close> line\<close>
  "header_lines m =
     [''---'', ''layout: post'', ''title: '' @ JSON_stringify (title m), ''date: '' @ date m,
      ''slug: '' @ slug m]
     @ (if tags m \<noteq> [] then [''tags: ['' @ join '', '' (map JSON_stringify (tags m)) @ '']''] else [])
     @ (if description m \<noteq> [] then [''excerpt: '' @ JSON_stringify (description m)] else [])
     @ (if coverImage m \<noteq> [] then [''cover_image: '' @ JSON_stringify (coverImage m)] else [])
     @ (if canonicalUrl m \<noteq> [] then [''canonical_url: '' @ JSON_stringify (canonicalUrl m)] else [])
     @ (if featured m then [''featured: true''] else [])"

definition is_token :: "string \<Rightarrow> bool" where
  \<comment> \<open>36 characters of \<^verbatim>\<open>[a-f0-9-]\<close>\<close>
  "is_token t = (length t = 36 \<and> list_all is_id_char t)"

definition single_line :: "string \<Rightarrow> bool" where
  "single_line s = (\<forall>c \<in> set s. \<not> is_line_terminator c)"

definition skippable :: "string \<Rightarrow> bool" where
  \<comment> \<open>a line at whose start the token pattern cannot match\<close>
  "skippable l = (single_line l \<and> l \<noteq> [] \<and> hd l \<noteq> CHR ''n'')"

subsection \<open>Example data\<close>

definition plain :: "string \<Rightarrow> rich_text_item" where
  "plain t = \<lparr>plain_text = Some t, annotations = None, href = None\<rparr>"

definition text_block :: "string \<Rightarrow> string \<Rightarrow> block" where
  \<comment> \<open>a block of the given type whose payload has rich text only\<close>
  "text_block ty t =
     \<lparr>type = ty,
      data = Some \<lparr>data_type = None, external = None, file = None,
                   rich_text = Some [plain t], checked = None, language = None,
                   caption = None, icon = None, data_url = None\<rparr>\<rparr>"

definition strong_link :: rich_text_item where
  "strong_link =
     \<lparr>plain_text = Some ''t'',
      annotations = Some \<lparr>bold = Some True, italic = Some True, code = None,
                           strikethrough = None\<rparr>,
      href = Some ''https://x''\<rparr>"

definition two_page_listing :: "string option \<Rightarrow> error + nat response" where
  "two_page_listing c =
     (if c = None then Inr \<lparr>results = [1, 2], has_more = True, next_cursor = Some ''c1''\<rparr>
      else if c = Some ''c1'' then Inr \<lparr>results = [3], has_more = False, next_cursor = None\<rparr>
      else Inl (ApiError ''unknown cursor''))"

definition empty_property :: property where
  "empty_property = \<lparr>p_title = None, p_rich_text = None, p_date = None, p_multi_select = None,
     p_files = None, p_url = None, p_checkbox = None\<rparr>"

definition title_prop :: "string \<Rightarrow> property" where
  "title_prop t = empty_property\<lparr>p_title := Some [plain t]\<rparr>"

definition text_prop :: "string \<Rightarrow> property" where
  "text_prop t = empty_property\<lparr>p_rich_text := Some [plain t]\<rparr>"

definition date_prop :: "string \<Rightarrow> property" where
  "date_prop t = empty_property\<lparr>p_date := Some \<lparr>start = Some t\<rparr>\<rparr>"

definition id1 :: string where
  "id1 = ''11111111-1111-1111-1111-111111111111''"

definition id2 :: string where
  "id2 = ''22222222-2222-2222-2222-222222222222''"

definition id3 :: string where
  "id3 = ''33333333-3333-3333-3333-333333333333''"

definition id4 :: string where
  "id4 = ''44444444-4444-4444-4444-444444444444''"

definition page1_props :: "string \<rightharpoonup> property" where
  "page1_props = [''Title'' \<mapsto> title_prop ''Hello, World!'', ''Date'' \<mapsto> date_prop ''2021-03-25'']"

definition page1 :: page where
  "page1 = \<lparr>page_id = id1, properties = Some page1_props\<rparr>"

definition page1_meta :: meta where
  "page1_meta =
     \<lparr>title = ''Hello, World!'', slug = ''hello-world'', date = ''2021-03-25'', tags = [],
      description = [], coverImage = [], canonicalUrl = [], featured = False\<rparr>"




definition example_dir :: fs where
  "example_dir =
     [(''notes.txt'', File (''notion_id: '' @ id4)),
      (''2020-01-01-old.md'', File (''---'' @ [CHR 0x0A] @ ''notion_id: '' @ [CHR 0x22] @ id4 @ [CHR 0x22] @ [CHR 0x0A] @ ''---''))]"


definition media_data :: "string option \<Rightarrow> url_ref option \<Rightarrow> url_ref option \<Rightarrow> block_data" where
  \<comment> \<open>the payload of a media block without caption\<close>
  "media_data ty ext hosted =
     \<lparr>data_type = ty, external = ext, file = hosted,
      rich_text = None, checked = None, language = None, caption = None, icon = None,
      data_url = None\<rparr>"

definition cover_props :: "string \<rightharpoonup> property" where
  "cover_props =
     [''Title'' \<mapsto> title_prop ''Cover'',
      ''Cover Image'' \<mapsto> empty_property\<lparr>p_files :=
         Some [\<lparr>data_type = Some ''file'', external = None,
                 file = Some \<lparr>url = Some ''https://f''\<rparr>\<rparr>]\<rparr>]"

definition cover_page :: page where
  "cover_page = \<lparr>page_id = id1, properties = Some cover_props\<rparr>"

definition slug_props :: "string \<rightharpoonup> property" where
  "slug_props =
     [''Title'' \<mapsto> title_prop ''My Post'', ''Slug'' \<mapsto> text_prop ''My-Post'',
      ''Date'' \<mapsto> date_prop ''2021-03-25'']"

definition slug_page :: page where
  "slug_page = \<lparr>page_id = id1, properties = Some slug_props\<rparr>"

definition injected_slug :: string where
  "injected_slug = ''x'' @ [CHR 0x0A] @ ''notion_id: 00000000-0000-0000-0000-000000000000''"

definition injected_page :: page where
  "injected_page =
     \<lparr>page_id = id1,
      properties = Some [''Title'' \<mapsto> title_prop ''T'', ''Slug'' \<mapsto> text_prop injected_slug,
                         ''Date'' \<mapsto> date_prop ''2021-03-25'']\<rparr>"

definition injected_meta :: meta where
  "injected_meta =
     \<lparr>title = ''T'', slug = injected_slug, date = ''2021-03-25'', tags = [], description = [],
      coverImage = [], canonicalUrl = [], featured = False\<rparr>"


section \<open>Rich text\<close>

text \<open>
  C4. A span with empty (or absent) text gives the empty string. Otherwise the text is
  wrapped in code markers, then in the emphasis markers (the combined marker when both
  bold and italic are set), then in strikethrough markers, and last in the link syntax,
  which is therefore outermost. Absent annotations, or an absent annotation field, count
  as unset. The spans are concatenated in order.
\<close>

theorem richText_span_order:
  "spanToMarkdown item =
     (if or_empty (plain_text item) = [] then []
      else wrap_link (href item)
             (wrap_strikethrough (ann_of item strikethrough)
                (wrap_emphasis (ann_of item bold) (ann_of item italic)
                   (wrap_code (ann_of item code) (or_empty (plain_text item))))))
   \<and> \<not> ann_of (item\<lparr>annotations := None\<rparr>) f
   \<and> \<not> ann_of (item\<lparr>annotations := Some (a\<lparr>bold := None\<rparr>)\<rparr>) bold
   \<and> \<not> ann_of (item\<lparr>annotations := Some (a\<lparr>italic := None\<rparr>)\<rparr>) italic
   \<and> \<not> ann_of (item\<lparr>annotations := Some (a\<lparr>code := None\<rparr>)\<rparr>) code
   \<and> \<not> ann_of (item\<lparr>annotations := Some (a\<lparr>strikethrough := None\<rparr>)\<rparr>) strikethrough
   \<and> richTextToMarkdown (Some items) = concat (map spanToMarkdown items)
   \<and> richTextToMarkdown None = []"
  by (simp add: spanToMarkdown_def wrap_link_def wrap_strikethrough_def wrap_emphasis_def
      wrap_code_def truthy_def ann_of_def flag_def richTextToMarkdown_def split: option.splits)

theorem richText_span_order_witness:
  "spanToMarkdown strong_link = ''[***t***](https://x)''"
  using richText_span_order [of strong_link]
  by (simp add: strong_link_def wrap_link_def wrap_strikethrough_def wrap_emphasis_def
      wrap_code_def ann_of_def flag_def or_empty_def)


section \<open>Assembling the body\<close>

lemma blocksToMarkdown_step_append:
  assumes "n < length bs"
  shows "blocksToMarkdown_step (bs @ cs) n = blocksToMarkdown_step bs n"
proof -
  have a: "(bs @ cs) ! n = bs ! n" using assms by (simp add: nth_append)
  have b: "(bs @ cs) ! (n - 1) = bs ! (n - 1)" using assms by (simp add: nth_append)
  show ?thesis unfolding blocksToMarkdown_step_def fun_eq_iff a b by simp
qed

lemma fold_blocksToMarkdown_step_append:
  "n \<le> length bs \<Longrightarrow>
     fold (blocksToMarkdown_step (bs @ cs)) [0..<n] acc = fold (blocksToMarkdown_step bs) [0..<n] acc"
proof (induction n arbitrary: acc)
  case 0
  then show ?case by simp
next
  case (Suc n)
  then have "blocksToMarkdown_step (bs @ cs) n = blocksToMarkdown_step bs n"
    by (simp add: blocksToMarkdown_step_append)
  with Suc show ?case by simp
qed

lemma blocksToMarkdown_lines_snoc:
  "blocksToMarkdown_lines (bs @ [b]) =
     (case blockToMarkdown b of
        None \<Rightarrow> blocksToMarkdown_lines bs
      | Some md \<Rightarrow>
          blocksToMarkdown_lines bs
          @ (if blocksToMarkdown_lines bs \<noteq> []
                \<and> \<not> (type b \<in> LIST_TYPES \<and> bs \<noteq> [] \<and> type (last bs) \<in> LIST_TYPES)
             then [[]] else [])
          @ (if md \<noteq> [] then [md] else []))"
proof -
  have "blocksToMarkdown_lines (bs @ [b]) =
          blocksToMarkdown_step (bs @ [b]) (length bs) (blocksToMarkdown_lines bs)"
    by (simp add: blocksToMarkdown_lines_def fold_blocksToMarkdown_step_append)
  also have "\<dots> =
     (case blockToMarkdown b of
        None \<Rightarrow> blocksToMarkdown_lines bs
      | Some md \<Rightarrow>
          blocksToMarkdown_lines bs
          @ (if blocksToMarkdown_lines bs \<noteq> []
                \<and> \<not> (type b \<in> LIST_TYPES \<and> bs \<noteq> [] \<and> type (last bs) \<in> LIST_TYPES)
             then [[]] else [])
          @ (if md \<noteq> [] then [md] else []))"
    by (cases bs rule: rev_cases)
      (simp_all add: blocksToMarkdown_step_def Let_def nth_append split: option.splits)
  finally show ?thesis .
qed

lemma rstrip_decomp: "xs = rev (dropWhile P (rev xs)) @ rev (takeWhile P (rev xs))"
proof -
  have "rev (takeWhile P (rev xs) @ dropWhile P (rev xs))
          = rev (dropWhile P (rev xs)) @ rev (takeWhile P (rev xs))"
    by (rule rev_append)
  then show ?thesis by (simp only: takeWhile_dropWhile_id rev_rev_ident)
qed

lemma trim_decomp:
  "\<exists>pre post. s = pre @ trim s @ post \<and> list_all is_ws pre \<and> list_all is_ws post"
proof -
  let ?t = "dropWhile is_ws s"
  have a: "s = takeWhile is_ws s @ ?t" by simp
  have b: "?t = trim s @ rev (takeWhile is_ws (rev ?t))"
    unfolding trim_def by (rule rstrip_decomp)
  have c: "list_all is_ws (takeWhile is_ws s)"
    by (simp add: list_all_iff) (meson set_takeWhileD)
  have d: "list_all is_ws (rev (takeWhile is_ws (rev ?t)))"
    by (simp add: list_all_iff) (meson set_takeWhileD)
  from a b have "s = takeWhile is_ws s @ trim s @ rev (takeWhile is_ws (rev ?t))" by simp
  with c d show ?thesis by blast
qed

lemma trim_ends:
  assumes ne: "trim s \<noteq> []"
  shows "\<not> is_ws (hd (trim s)) \<and> \<not> is_ws (last (trim s))"
proof -
  let ?t = "dropWhile is_ws s"
  have l: "last (trim s) = hd (dropWhile is_ws (rev ?t))"
    using ne by (simp add: trim_def last_rev)
  have "dropWhile is_ws (rev ?t) \<noteq> []" using ne by (simp add: trim_def)
  then have 1: "\<not> is_ws (last (trim s))" unfolding l by (rule hd_dropWhile)
  have b: "?t = trim s @ rev (takeWhile is_ws (rev ?t))"
    unfolding trim_def by (rule rstrip_decomp)
  then have "hd ?t = hd (trim s)" using ne by (metis hd_append2)
  moreover have "?t \<noteq> []"
  proof
    assume e: "?t = []"
    have "trim s = []" unfolding trim_def e by simp
    with ne show False by simp
  qed
  ultimately have 2: "\<not> is_ws (hd (trim s))" using hd_dropWhile[of is_ws s] by simp
  from 1 2 show ?thesis by simp
qed

lemmas blocks_eval =
  blocksToMarkdown_def blocksToMarkdown_lines_def blocksToMarkdown_step_def
  blockToMarkdown_def richTextToMarkdown_def spanToMarkdown_def ann_of_def flag_def truthy_def
  or_empty_def LIST_TYPES_def trim_def is_ws_def text_block_def plain_def upt_rec

text \<open>
  C2, as the claim states it, fails: two list items with an omitted block between them
  are separated by a blank line, although the nearest non-omitted block before the
  second item is a list item.
\<close>

theorem list_items_around_omitted_block_counterexample:
  "blockToMarkdown (text_block ''child_page'' ''p'') = None
   \<and> type (text_block ''bulleted_list_item'' ''a'') \<in> LIST_TYPES
   \<and> type (text_block ''bulleted_list_item'' ''b'') \<in> LIST_TYPES
   \<and> blocksToMarkdown [text_block ''bulleted_list_item'' ''a'', text_block ''child_page'' ''p'',
                       text_block ''bulleted_list_item'' ''b'']
       = ''- a'' @ [CHR 0x0A, CHR 0x0A] @ ''- b''"
  by (simp add: blocks_eval)

text \<open>
  C2, amended. The lines are built block by block. An omitted block adds nothing. A
  block that is not omitted is preceded by a blank-line separator when a line has been
  emitted before, unless the block and the block immediately before it in the input
  list (omitted or not) are both of a list kind; then its text follows, unless the text
  is empty. The body is the lines joined by line feeds, with the whitespace at both
  ends removed.
\<close>

theorem blocksToMarkdown_separators:
  "blocksToMarkdown_lines [] = []
   \<and> blocksToMarkdown_lines (bs @ [b]) =
       (case blockToMarkdown b of
          None \<Rightarrow> blocksToMarkdown_lines bs
        | Some md \<Rightarrow>
            blocksToMarkdown_lines bs
            @ (if blocksToMarkdown_lines bs \<noteq> []
                  \<and> \<not> (type b \<in> LIST_TYPES \<and> bs \<noteq> [] \<and> type (last bs) \<in> LIST_TYPES)
               then [[]] else [])
            @ (if md \<noteq> [] then [md] else []))
   \<and> (\<exists>pre post. join [CHR 0x0A] (blocksToMarkdown_lines bs) = pre @ blocksToMarkdown bs @ post
         \<and> list_all is_ws pre \<and> list_all is_ws post)
   \<and> (blocksToMarkdown bs = []
       \<or> (\<not> is_ws (hd (blocksToMarkdown bs)) \<and> \<not> is_ws (last (blocksToMarkdown bs))))"
proof -
  have 1: "blocksToMarkdown_lines [] = []"
    by (simp add: blocksToMarkdown_lines_def)
  have 3: "\<exists>pre post. join [CHR 0x0A] (blocksToMarkdown_lines bs) = pre @ blocksToMarkdown bs @ post
         \<and> list_all is_ws pre \<and> list_all is_ws post"
    unfolding blocksToMarkdown_def by (rule trim_decomp)
  have 4: "blocksToMarkdown bs = []
       \<or> (\<not> is_ws (hd (blocksToMarkdown bs)) \<and> \<not> is_ws (last (blocksToMarkdown bs)))"
    unfolding blocksToMarkdown_def using trim_ends by blast
  from 1 blocksToMarkdown_lines_snoc 3 4 show ?thesis by blast
qed

theorem blocksToMarkdown_separators_witness:
  "blocksToMarkdown [text_block ''paragraph'' '' a ''] = ''a''
   \<and> \<not> is_ws (hd (blocksToMarkdown [text_block ''paragraph'' '' a '']))
   \<and> blocksToMarkdown_lines ([text_block ''paragraph'' '' a ''] @ [text_block ''to_do'' ''b''])
       = ['' a '', [], ''- [ ] b'']"
  using blocksToMarkdown_separators
    [of "[text_block ''paragraph'' '' a '']" "text_block ''to_do'' ''b''"]
  by (simp add: blocks_eval)

lemma list_grouping_example:
  "blocksToMarkdown [text_block ''bulleted_list_item'' ''a'', text_block ''bulleted_list_item'' ''b'',
                     text_block ''paragraph'' ''c'', text_block ''numbered_list_item'' ''d'']
     = ''- a'' @ [CHR 0x0A] @ ''- b'' @ [CHR 0x0A, CHR 0x0A] @ ''c'' @ [CHR 0x0A, CHR 0x0A] @ ''1. d''"
  by (simp add: blocks_eval)


section \<open>Pagination\<close>

lemma fetch_loop_splits_into:
  "splits_into list cursor chunks \<Longrightarrow>
     fetch_loop list cursor acc = Some (Inr (acc @ concat chunks))"
proof (induction list cursor chunks arbitrary: acc rule: splits_into.induct)
  case (1 list cursor)
  then show ?case by simp
next
  case (2 list cursor items)
  then show ?case
    by (subst fetch_loop.simps) (auto simp: truthy_def split: sum.splits)
next
  case (3 list cursor items v va)
  then show ?case
    by (subst fetch_loop.simps) (auto simp: truthy_def split: sum.splits)
qed

text \<open>
  C5. When a listing is split across cursor pages, both fetchers return, and what they
  return is the concatenation of the pages' items in order: the loop follows each
  response's cursor until a response says that there is no more.
\<close>

theorem paginated_fetch_complete:
  "(splits_into (blocks_children_list w blockId) None chunks \<longrightarrow>
      fetchAllBlocks w blockId = Some (Inr (concat chunks)))
   \<and> (splits_into (databases_query w) None pchunks \<longrightarrow>
      fetchPublishedPages w = Some (Inr (concat pchunks)))
   \<and> (splits_into list None cs \<longrightarrow> fetch_loop list None [] = Some (Inr (concat cs)))"
  by (simp add: fetchAllBlocks_def fetchPublishedPages_def fetch_loop_splits_into)

theorem paginated_fetch_complete_witness:
  "splits_into two_page_listing None [[1, 2], [3]]
   \<and> fetch_loop two_page_listing None [] = Some (Inr [1, 2, 3])"
proof -
  have h: "splits_into two_page_listing None [[1, 2], [3]]"
    by (simp add: two_page_listing_def truthy_def)
  from paginated_fetch_complete [of _ _ _ _ two_page_listing "[[1, 2], [3]]"] h
  show ?thesis by simp
qed


section \<open>Properties of the reconciliation pass\<close>

lemma main_unfold:
  "main w d =
     (case fetchPublishedPages w of
        None \<Rightarrow> None
      | Some (Inl e) \<Rightarrow>
          Some \<lparr>exit_code = 1, out_fs = d, out_stats = None,
                 reported_existing = Some (length (existing_md d))\<rparr>
      | Some (Inr publishedPages) \<Rightarrow>
          (case process_pages w (existing_md d) (existing_index d) publishedPages (initial_state d) of
             None \<Rightarrow> None
           | Some st \<Rightarrow>
               Some \<lparr>exit_code = (if errors (stats st) > 0 then 1 else 0),
                      out_fs = remove_stale (existing_index d) (processedIds st) (fs st),
                      out_stats = Some (stats st),
                      reported_existing = Some (length (existing_md d))\<rparr>))"
  unfolding main_def existing_index_def existing_md_def Let_def by (rule refl)


lemma process_page_cases:
  assumes "process_page w ef idx p st = Some st'"
  obtains (bad_meta) "st' = count_error (st\<lparr>processedIds := insert (page_id p) (processedIds st)\<rparr>)"
      and "isl (extractMeta (today w) p)"
    | (bad_fetch) m e where "st' = count_error (st\<lparr>processedIds := insert (page_id p) (processedIds st)\<rparr>)"
      and "extractMeta (today w) p = Inr m" and "fetchAllBlocks w (page_id p) = Some (Inl e)"
    | (rendered) m blocks where "extractMeta (today w) p = Inr m"
      and "fetchAllBlocks w (page_id p) = Some (Inr blocks)"
      and "st' = write_page ef idx (page_id p) (postFilename (date m) (slug m))
             (file_content (buildFrontMatter m (page_id p)) (blocksToMarkdown blocks))
             (st\<lparr>processedIds := insert (page_id p) (processedIds st)\<rparr>)"
  using assms unfolding process_page_def Let_def
  by (auto split: sum.splits option.splits)



















lemma try_unlink_other: "g \<noteq> f \<Longrightarrow> map_of (try_unlink d f) g = map_of d g"
  by (simp add: try_unlink_def unlinkSync_def delete_conv' split: option.splits entry.splits)

lemma remove_stale_frame:
  "(\<And>t. (t, g) \<in> set idx \<Longrightarrow> t \<in> processed) \<Longrightarrow>
     map_of (remove_stale idx processed d) g = map_of d g"
  unfolding remove_stale_def
proof (induction idx arbitrary: d)
  case Nil
  then show ?case by simp
next
  case (Cons e idx)
  obtain t f where e: "e = (t, f)" by (cases e)
  have "map_of (if t \<notin> processed then try_unlink d f else d) g = map_of d g"
  proof (cases "t \<in> processed")
    case True
    then show ?thesis by simp
  next
    case False
    have "g \<noteq> f"
    proof
      assume "g = f"
      with e have "(t, g) \<in> set (e # idx)" by simp
      with Cons.prems False show False by blast
    qed
    with False show ?thesis by (simp add: try_unlink_other)
  qed
  with Cons.IH[of "if t \<notin> processed then try_unlink d f else d"] Cons.prems e
  show ?case by simp
qed




lemma write_page_frame:
  assumes "g \<noteq> fn" and "map_of idx pid \<noteq> Some g"
  shows "map_of (fs (write_page ef idx pid fn c st)) g = map_of (fs st) g"
proof -
  let ?d = "if truthy (map_of idx pid) \<and> map_of idx pid \<noteq> Some fn
        then try_unlink (fs st) (the (map_of idx pid)) else fs st"
  have d: "map_of ?d g = map_of (fs st) g"
  proof (cases "truthy (map_of idx pid) \<and> map_of idx pid \<noteq> Some fn")
    case True
    then obtain f where f: "map_of idx pid = Some f" by (auto simp: truthy_def split: option.splits)
    with assms(2) have "g \<noteq> f" by auto
    with True f show ?thesis by (simp add: try_unlink_other)
  next
    case False
    then show ?thesis by auto
  qed
  have w: "writeFileSync ?d fn c = Inr d' \<Longrightarrow> map_of d' g = map_of ?d g" for d'
    using assms(1) by (auto simp: writeFileSync_def update_conv' split: if_splits option.splits entry.splits)
  have "map_of (fs (write_page ef idx pid fn c st)) g = map_of ?d g"
    using w unfolding write_page_def Let_def count_error_def
    by (auto split: sum.splits if_splits)
  with d show ?thesis by simp
qed

lemma process_page_frame:
  assumes "process_page w ef idx p st = Some st'"
    and "page_filename (today w) p \<noteq> Inr g" and "map_of idx (page_id p) \<noteq> Some g"
  shows "map_of (fs st') g = map_of (fs st) g"
  using assms(1)
proof (cases rule: process_page_cases)
  case bad_meta
  then show ?thesis by (simp add: count_error_def)
next
  case (bad_fetch m e)
  then show ?thesis by (simp add: count_error_def)
next
  case (rendered m blocks)
  with assms(2) have "g \<noteq> postFilename (date m) (slug m)"
    by (auto simp: page_filename_def)
  from write_page_frame[OF this assms(3)] show ?thesis unfolding rendered(3) by simp
qed

lemma process_pages_frame:
  assumes "process_pages w ef idx ps st = Some st'"
    and "\<And>q. q \<in> set ps \<Longrightarrow> page_filename (today w) q \<noteq> Inr g \<and> map_of idx (page_id q) \<noteq> Some g"
  shows "map_of (fs st') g = map_of (fs st) g"
  using assms
proof (induction ps arbitrary: st)
  case Nil
  then show ?case by simp
next
  case (Cons p ps)
  then obtain st1 where a: "process_page w ef idx p st = Some st1"
    and b: "process_pages w ef idx ps st1 = Some st'"
    by (auto split: option.splits)
  from Cons.prems(2)[of p] have "map_of (fs st1) g = map_of (fs st) g"
    by (intro process_page_frame[OF a]) auto
  moreover from Cons.IH[OF b] Cons.prems(2) have "map_of (fs st') g = map_of (fs st1) g"
    by auto
  ultimately show ?case by simp
qed

lemma page_written_cong:
  "map_of d' = map_of d \<Longrightarrow> page_written w p d' = page_written w p d"
proof -
  assume "map_of d' = map_of d"
  then have r: "readFileSync d' = readFileSync d"
    by (intro ext) (simp add: readFileSync_def)
  show ?thesis unfolding page_written_def r ..
qed


lemma page_written_at:
  assumes "page_filename (today w) p = Inr g" and "map_of d' g = map_of d g"
  shows "page_written w p d' = page_written w p d"
proof -
  from assms(1) obtain m where m: "extractMeta (today w) p = Inr m"
    and g: "g = postFilename (date m) (slug m)"
    by (auto simp: page_filename_def split: sum.splits)
  from assms(2) have r: "readFileSync d' (postFilename (date m) (slug m))
      = readFileSync d (postFilename (date m) (slug m))"
    unfolding g by (simp add: readFileSync_def)
  show ?thesis unfolding page_written_def m sum.case r ..
qed

lemma written_file_survives:
  assumes "process_pages w ef idx ys st2 = Some st"
    and "page_filename (today w) p = Inr g"
    and "page_written w p (fs st2)"
    and "\<And>q. q \<in> set ys \<Longrightarrow>
           page_filename (today w) q \<noteq> Inr g \<and> map_of idx (page_id q) \<noteq> Some g"
    and "\<And>t. (t, g) \<in> set idx \<Longrightarrow> t \<in> processedIds st"
  shows "page_written w p (remove_stale idx (processedIds st) (fs st))"
proof -
  have "map_of (fs st) g = map_of (fs st2) g"
    using assms(1,4) by (rule process_pages_frame)
  moreover have "map_of (remove_stale idx (processedIds st) (fs st)) g = map_of (fs st) g"
    using assms(5) by (rule remove_stale_frame)
  ultimately have "map_of (remove_stale idx (processedIds st) (fs st)) g = map_of (fs st2) g"
    by simp
  from page_written_at[OF assms(2) this] assms(3) show ?thesis by simp
qed

lemma process_pages_returns:
  "(\<And>p. p \<in> set ps \<Longrightarrow> fetchAllBlocks w (page_id p) \<noteq> None) \<Longrightarrow>
     process_pages w ef idx ps st \<noteq> None"
proof (induction ps arbitrary: st)
  case Nil
  then show ?case by simp
next
  case (Cons p ps)
  from Cons.prems[of p] have "process_page w ef idx p st \<noteq> None"
    by (auto simp: process_page_def Let_def split: sum.splits option.splits)
  with Cons show ?case by (auto split: option.splits)
qed

lemma main_returns:
  assumes "fetchPublishedPages w = Some r"
    and "\<And>pages p. r = Inr pages \<Longrightarrow> p \<in> set pages \<Longrightarrow> fetchAllBlocks w (page_id p) \<noteq> None"
  shows "main w d \<noteq> None"
proof (cases r)
  case (Inl e)
  with assms(1) show ?thesis by (simp add: main_unfold)
next
  case (Inr pages)
  with assms(2) have "process_pages w (existing_md d) (existing_index d) pages (initial_state d) \<noteq> None"
    by (intro process_pages_returns) simp
  with assms(1) Inr show ?thesis by (auto simp: main_unfold)
qed



lemma extractMeta_Inr: "properties p = Some props \<Longrightarrow> \<exists>m. extractMeta t p = Inr m"
  by (simp add: extractMeta_def Let_def)






lemma set_update_subset: "set (AList.update k v al) \<subseteq> insert (k, v) (set al)"
  by (induction al) auto

lemma index_file_entries:
  assumes "(t, f) \<in> set (index_file d g acc)"
  shows "(t, f) \<in> set acc \<or> (f = g \<and> (\<exists>c. readFileSync d g = Inr c \<and> extract_notion_id c = Some t))"
  using assms set_update_subset
  by (fastforce simp: index_file_def split: sum.splits option.splits)

lemma fold_index_file_entries:
  "(t, f) \<in> set (fold (index_file d) gs acc) \<Longrightarrow>
     (t, f) \<in> set acc \<or> (f \<in> set gs \<and> (\<exists>c. readFileSync d f = Inr c \<and> extract_notion_id c = Some t))"
proof (induction gs arbitrary: acc)
  case Nil
  then show ?case by simp
next
  case (Cons g gs)
  from Cons.IH[of "index_file d g acc"] Cons.prems
  have "(t, f) \<in> set (index_file d g acc)
        \<or> (f \<in> set gs \<and> (\<exists>c. readFileSync d f = Inr c \<and> extract_notion_id c = Some t))"
    by simp
  with index_file_entries[of t f d g acc] show ?case by auto
qed

lemma existing_index_entries:
  assumes "(t, f) \<in> set (existing_index d)"
  shows "f \<in> set (readdirSync d) \<and> endsWith f ''.md''
         \<and> (\<exists>c. readFileSync d f = Inr c \<and> extract_notion_id c = Some t)"
  using fold_index_file_entries[of t f d "existing_md d" "[]"] assms
  by (auto simp: existing_index_def build_index_def existing_md_def)

text \<open>
  C10. Every entry of the index of existing posts names a file of the initial listing
  whose name ends in \<^verbatim>\<open>.md\<close>, that could be read and whose content matched the token
  pattern. A file whose name does not end in \<^verbatim>\<open>.md\<close> is not among the listed posts, so
  it is neither indexed nor counted, and the removal of stale posts leaves it as it is:
  that loop changes a file only if the index maps a token that was not processed to it.
\<close>

theorem stale_cleanup_frame:
  "(\<forall>(t, f) \<in> set (existing_index d).
       f \<in> set (readdirSync d) \<and> endsWith f ''.md''
       \<and> (\<exists>c. readFileSync d f = Inr c \<and> extract_notion_id c = Some t))
   \<and> (\<not> endsWith g ''.md'' \<longrightarrow>
         g \<notin> set (existing_md d) \<and> g \<notin> snd ` set (existing_index d)
         \<and> map_of (remove_stale (existing_index d) processed d') g = map_of d' g)
   \<and> (map_of (remove_stale (existing_index d) processed d') g \<noteq> map_of d' g \<longrightarrow>
         (\<exists>t. (t, g) \<in> set (existing_index d) \<and> t \<notin> processed))
   \<and> (main w d = Some out \<longrightarrow> reported_existing out = Some (length (existing_md d)))"
proof (intro conjI impI)
  show "\<forall>(t, f) \<in> set (existing_index d).
       f \<in> set (readdirSync d) \<and> endsWith f ''.md''
       \<and> (\<exists>c. readFileSync d f = Inr c \<and> extract_notion_id c = Some t)"
    using existing_index_entries by blast
next
  assume n: "\<not> endsWith g ''.md''"
  then show "g \<notin> set (existing_md d)" by (simp add: existing_md_def)
  from n existing_index_entries show i: "g \<notin> snd ` set (existing_index d)" by force
  then have "\<And>t. (t, g) \<in> set (existing_index d) \<Longrightarrow> t \<in> processed" by force
  then show "map_of (remove_stale (existing_index d) processed d') g = map_of d' g"
    by (rule remove_stale_frame)
next
  assume "map_of (remove_stale (existing_index d) processed d') g \<noteq> map_of d' g"
  with remove_stale_frame[of g "existing_index d" processed d']
  show "\<exists>t. (t, g) \<in> set (existing_index d) \<and> t \<notin> processed" by blast
next
  assume "main w d = Some out"
  then show "reported_existing out = Some (length (existing_md d))"
    by (auto simp: main_unfold split: option.splits sum.splits)
qed

lemma example_index: "existing_index example_dir = [(id4, ''2020-01-01-old.md'')]"
  by code_simp

lemma example_cleanup:
  "map_of (remove_stale (existing_index example_dir) {id1, id2, id3} example_dir) ''notes.txt''
     = Some (File (''notion_id: '' @ id4))
   \<and> map_of (remove_stale (existing_index example_dir) {id1, id2, id3} example_dir) ''2020-01-01-old.md''
     = None
   \<and> map_of example_dir ''2020-01-01-old.md'' \<noteq> None
   \<and> \<not> endsWith ''notes.txt'' ''.md''"
  by code_simp

theorem stale_cleanup_frame_witness:
  "existing_index example_dir = [(id4, ''2020-01-01-old.md'')]
   \<and> ''2020-01-01-old.md'' \<in> set (readdirSync example_dir)
   \<and> endsWith ''2020-01-01-old.md'' ''.md''
   \<and> \<not> endsWith ''notes.txt'' ''.md''
   \<and> map_of (remove_stale (existing_index example_dir) {id1, id2, id3} example_dir) ''notes.txt''
       = Some (File (''notion_id: '' @ id4))
   \<and> map_of (remove_stale (existing_index example_dir) {id1, id2, id3} example_dir)
         ''2020-01-01-old.md'' \<noteq> map_of example_dir ''2020-01-01-old.md''
   \<and> id4 \<notin> {id1, id2, id3}"
proof -
  note t = stale_cleanup_frame [of example_dir "''notes.txt''" "{id1, id2, id3}" example_dir]
  note u = stale_cleanup_frame [of example_dir "''2020-01-01-old.md''" "{id1, id2, id3}" example_dir]
  from example_cleanup have n: "\<not> endsWith ''notes.txt'' ''.md''" by simp
  from example_cleanup have c: "map_of (remove_stale (existing_index example_dir) {id1, id2, id3} example_dir)
         ''2020-01-01-old.md'' \<noteq> map_of example_dir ''2020-01-01-old.md''"
    by auto
  from t n have 1: "map_of (remove_stale (existing_index example_dir) {id1, id2, id3} example_dir) ''notes.txt''
      = map_of example_dir ''notes.txt''"
    by blast
  from u c have 2: "\<exists>t. (t, ''2020-01-01-old.md'') \<in> set (existing_index example_dir) \<and> t \<notin> {id1, id2, id3}"
    by blast
  from t have 3: "\<forall>(t, f) \<in> set (existing_index example_dir).
      f \<in> set (readdirSync example_dir) \<and> endsWith f ''.md''"
    by blast
  from 2 have 4: "id4 \<notin> {id1, id2, id3}" by (simp add: example_index)
  from 3 have 5: "''2020-01-01-old.md'' \<in> set (readdirSync example_dir)
     \<and> endsWith ''2020-01-01-old.md'' ''.md''"
    by (simp add: example_index)
  from 1 4 5 n c example_cleanup example_index show ?thesis by simp
qed


section \<open>Media URLs and the cover image\<close>

lemma extractMeta_cover:
  "properties p = Some props \<Longrightarrow> extractMeta t p = Inr m \<Longrightarrow>
     coverImage m =
       (case Option.bind (props ''Cover Image'') p_files of
          Some (f # rest) \<Rightarrow> external_first f
        | _ \<Rightarrow> [])"
  by (auto simp: extractMeta_def Let_def external_first_def or_empty_def split: option.split list.split)

lemma extractMeta_slug_fallback:
  "properties p = Some props \<Longrightarrow> props ''Slug'' = None \<Longrightarrow> props ''slug'' = None \<Longrightarrow>
     extractMeta t p = Inr m \<Longrightarrow> slug m = titleToSlug (title m)"
  by (auto simp: extractMeta_def Let_def coalesce_def first_plain_text_def)

lemma extractMeta_slug_given:
  "properties p = Some props \<Longrightarrow> props ''Slug'' = Some sp \<Longrightarrow>
     p_rich_text sp = Some (x # xs) \<Longrightarrow> plain_text x = Some s \<Longrightarrow> trim s \<noteq> [] \<Longrightarrow>
     extractMeta t p = Inr m \<Longrightarrow> slug m = trim s"
  by (auto simp: extractMeta_def Let_def coalesce_def first_plain_text_def)

text \<open>
  C7, as the claim states it, fails for blocks: with the storage type \<^verbatim>\<open>external\<close>, no
  external URL and a hosted-file URL, the URL is empty, not the hosted-file URL; with
  another storage type the hosted-file URL is taken although an external URL is there.
\<close>

theorem media_url_no_fallback_counterexample:
  "blockToMarkdown \<lparr>type = ''image'',
       data = Some (media_data (Some ''external'') None (Some \<lparr>url = Some ''https://f''\<rparr>))\<rparr>
     = Some ''![]()''
   \<and> blockToMarkdown \<lparr>type = ''video'',
       data = Some (media_data (Some ''file'') (Some \<lparr>url = Some ''https://e''\<rparr>)
                      (Some \<lparr>url = Some ''https://f''\<rparr>))\<rparr>
     = Some (''['' @ play_glyph @ '' Watch video](https://f)'')"
  by (simp add: blockToMarkdown_def media_data_def media_url_def opt_url_def or_empty_def
      richTextToMarkdown_def)

text \<open>
  C7, amended. The URL of an image or video block is chosen by the storage type of the
  block: the external URL when the type is \<^verbatim>\<open>external\<close>, the hosted-file URL otherwise,
  and the empty string when the chosen one is absent; there is no fallback from one to
  the other. Where the external URL is present exactly when the type says so, this is
  the external URL first and the hosted-file URL otherwise. The cover image is the
  external URL of the first file of the property if present, else its hosted-file URL,
  else empty.
\<close>

theorem media_url_resolution:
  "blockToMarkdown \<lparr>type = ''image'', data = Some d\<rparr> =
     Some (''!['' @ richTextToMarkdown (Some (case caption d of None \<Rightarrow> [] | Some xs \<Rightarrow> xs))
           @ ''](''  @ media_url d @ '')'')
   \<and> blockToMarkdown \<lparr>type = ''video'', data = Some d\<rparr> =
     Some (if richTextToMarkdown (Some (case caption d of None \<Rightarrow> [] | Some xs \<Rightarrow> xs)) \<noteq> []
           then ''['' @ play_glyph @ '' ''
                @ richTextToMarkdown (Some (case caption d of None \<Rightarrow> [] | Some xs \<Rightarrow> xs))
                @ ''](''  @ media_url d @ '')''
           else ''['' @ play_glyph @ '' Watch video](''  @ media_url d @ '')'')
   \<and> media_url d = (if data_type d = Some ''external'' then or_empty (opt_url (external d))
                    else or_empty (opt_url (file d)))
   \<and> (tag_consistent d \<longrightarrow> media_url d = external_first d)
   \<and> (properties p = Some props \<and> extractMeta t p = Inr m \<longrightarrow>
        coverImage m =
          (case Option.bind (props ''Cover Image'') p_files of
             Some (f # rest) \<Rightarrow> external_first f
           | _ \<Rightarrow> []))"
proof -
  have 1: "tag_consistent d \<longrightarrow> media_url d = external_first d"
    by (auto simp: tag_consistent_def media_url_def external_first_def coalesce_def or_empty_def
        split: option.splits if_splits)
  have 2: "blockToMarkdown \<lparr>type = ''image'', data = Some d\<rparr> =
     Some (''!['' @ richTextToMarkdown (Some (case caption d of None \<Rightarrow> [] | Some xs \<Rightarrow> xs))
           @ ''](''  @ media_url d @ '')'')"
    by (simp add: blockToMarkdown_def Let_def)
  have 3: "blockToMarkdown \<lparr>type = ''video'', data = Some d\<rparr> =
     Some (if richTextToMarkdown (Some (case caption d of None \<Rightarrow> [] | Some xs \<Rightarrow> xs)) \<noteq> []
           then ''['' @ play_glyph @ '' ''
                @ richTextToMarkdown (Some (case caption d of None \<Rightarrow> [] | Some xs \<Rightarrow> xs))
                @ ''](''  @ media_url d @ '')''
           else ''['' @ play_glyph @ '' Watch video](''  @ media_url d @ '')'')"
    by (simp add: blockToMarkdown_def Let_def)
  have 4: "media_url d = (if data_type d = Some ''external'' then or_empty (opt_url (external d))
                    else or_empty (opt_url (file d)))"
    by (simp add: media_url_def)
  from 1 2 3 4 extractMeta_cover[of p props t m] show ?thesis by blast
qed

theorem media_url_resolution_witness:
  "tag_consistent (media_data (Some ''external'') (Some \<lparr>url = Some ''https://e''\<rparr>) None)
   \<and> media_url (media_data (Some ''external'') (Some \<lparr>url = Some ''https://e''\<rparr>) None)
       = ''https://e''
   \<and> properties cover_page = Some cover_props
   \<and> (\<exists>m. extractMeta ''2024-01-01'' cover_page = Inr m \<and> coverImage m = ''https://f'')"
proof -
  let ?d = "media_data (Some ''external'') (Some \<lparr>url = Some ''https://e''\<rparr>) None"
  have c: "tag_consistent ?d"
    by (simp add: tag_consistent_def media_data_def opt_url_def)
  have p: "properties cover_page = Some cover_props" by (simp add: cover_page_def)
  then obtain m where m: "extractMeta ''2024-01-01'' cover_page = Inr m"
    using extractMeta_Inr by blast
  note t = media_url_resolution [of ?d cover_page cover_props "''2024-01-01''" m]
  from t c have 1: "media_url ?d = ''https://e''"
    by (simp add: external_first_def media_data_def opt_url_def coalesce_def or_empty_def)
  from t p m have "coverImage m =
      (case Option.bind (cover_props ''Cover Image'') p_files of
         Some (f # rest) \<Rightarrow> external_first f
       | _ \<Rightarrow> [])"
    by blast
  then have 2: "coverImage m = ''https://f''"
    by (simp add: cover_props_def empty_property_def external_first_def opt_url_def coalesce_def
        or_empty_def)
  from c 1 p m 2 show ?thesis by blast
qed


section \<open>Slugs and file names\<close>

lemma lower_char_not_upper: "\<not> is_upper (lower_char c)"
proof (cases "is_upper c")
  case True
  then have "(of_char c :: nat) + 32 < 256"
    by (auto simp: is_upper_def Let_def)
  then have "of_char (char_of (of_char c + 32 :: nat)) = (of_char c + 32 :: nat)"
    by simp
  with True show ?thesis
    by (auto simp: lower_char_def is_upper_def Let_def)
next
  case False
  then show ?thesis by (simp add: lower_char_def)
qed

lemma set_replace_runs: "set (replace_runs P r s) \<subseteq> set s \<union> set r"
proof (induction P r s rule: replace_runs.induct)
  case (1 P r)
  then show ?case by simp
next
  case (2 P r c cs)
  have "set (dropWhile P cs) \<subseteq> set cs" by (auto dest: set_dropWhileD)
  with 2 show ?case by auto
qed

lemma set_strip_ends: "set (strip_ends s) \<subseteq> set s"
  by (auto simp: strip_ends_def Let_def dest: in_set_butlastD list.set_sel(2))

lemma set_trim: "set (trim s) \<subseteq> set s"
proof
  fix x assume "x \<in> set (trim s)"
  then have "x \<in> set (dropWhile is_ws (rev (dropWhile is_ws s)))" by (simp add: trim_def)
  then have "x \<in> set (rev (dropWhile is_ws s))" by (rule set_dropWhileD)
  then have "x \<in> set (dropWhile is_ws s)" by simp
  then show "x \<in> set s" by (rule set_dropWhileD)
qed

lemma titleToSlug_chars:
  "c \<in> set (titleToSlug t) \<Longrightarrow> \<not> is_upper c"
proof -
  assume c: "c \<in> set (titleToSlug t)"
  have h: "\<not> is_upper CHR ''-''" by (simp add: is_upper_def)
  from c set_strip_ends have "c \<in> set (replace_runs is_hyphen ''-''
          (replace_runs is_ws ''-'' (trim (strip_chars (toLowerCase t)))))"
    unfolding titleToSlug_def by blast
  with set_replace_runs have "c = CHR ''-'' \<or> c \<in> set (replace_runs is_ws ''-'' (trim (strip_chars (toLowerCase t))))"
    by fastforce
  with set_replace_runs have "c = CHR ''-'' \<or> c \<in> set (trim (strip_chars (toLowerCase t)))"
    by fastforce
  with set_trim have "c = CHR ''-'' \<or> c \<in> set (strip_chars (toLowerCase t))"
    by blast
  then have "c = CHR ''-'' \<or> c \<in> set (toLowerCase t)"
    by (auto simp: strip_chars_def)
  with h lower_char_not_upper show ?thesis
    by (auto simp: toLowerCase_def)
qed

lemma toLowerCase_id: "(\<And>c. c \<in> set s \<Longrightarrow> \<not> is_upper c) \<Longrightarrow> toLowerCase s = s"
  by (induction s) (auto simp: toLowerCase_def lower_char_def)

lemma toLowerCase_append: "toLowerCase (a @ b) = toLowerCase a @ toLowerCase b"
  by (simp add: toLowerCase_def)

lemma titleToSlug_lower: "toLowerCase (titleToSlug t) = titleToSlug t"
  using titleToSlug_chars by (rule toLowerCase_id)

lemma md_lower: "toLowerCase ''.md'' = ''.md'' \<and> toLowerCase ''-'' = ''-''"
  by (simp add: toLowerCase_def lower_char_def is_upper_def)

lemma example_page1_meta: "extractMeta ''2024-01-01'' page1 = Inr page1_meta"
  by code_simp

text \<open>
  C6, as the claim states it, fails: a slug taken from the page's Slug property keeps its
  capitals, and so does the file name.
\<close>

theorem verbatim_slug_filename_counterexample:
  "page_filename ''2024-01-01'' slug_page = Inr ''2021-03-25-My-Post.md''
   \<and> toLowerCase ''2021-03-25-My-Post.md'' \<noteq> ''2021-03-25-My-Post.md''"
  by code_simp

text \<open>
  C6, amended. The file name is the date, a hyphen, the slug and \<^verbatim>\<open>.md\<close>. A slug that
  comes from the slugification of the title is entirely lowercase, and then so is the
  file name if the date string is. A slug that comes from the page's Slug property is
  that text with the whitespace at its ends removed, as written otherwise.
\<close>

theorem postFilename_lowercase_from_title:
  "postFilename d s = d @ ''-'' @ s @ ''.md''
   \<and> toLowerCase (titleToSlug t) = titleToSlug t
   \<and> (toLowerCase d = d \<longrightarrow>
        toLowerCase (postFilename d (titleToSlug t)) = postFilename d (titleToSlug t))
   \<and> (properties p = Some props \<and> props ''Slug'' = None \<and> props ''slug'' = None
        \<and> extractMeta today' p = Inr m \<longrightarrow>
        page_filename today' p = Inr (date m @ ''-'' @ titleToSlug (title m) @ ''.md''))
   \<and> (properties p = Some props \<and> props ''Slug'' = Some sp \<and> p_rich_text sp = Some (x # xs)
        \<and> plain_text x = Some s0 \<and> trim s0 \<noteq> [] \<and> extractMeta today' p = Inr m \<longrightarrow>
        page_filename today' p = Inr (date m @ ''-'' @ trim s0 @ ''.md''))"
proof -
  have 1: "toLowerCase d = d \<longrightarrow>
        toLowerCase (postFilename d (titleToSlug t)) = postFilename d (titleToSlug t)"
    using md_lower titleToSlug_lower[of t]
    by (simp add: postFilename_def toLowerCase_append del: append_Cons)
  have 2: "properties p = Some props \<and> props ''Slug'' = None \<and> props ''slug'' = None
        \<and> extractMeta today' p = Inr m \<longrightarrow>
        page_filename today' p = Inr (date m @ ''-'' @ titleToSlug (title m) @ ''.md'')"
    using extractMeta_slug_fallback[of p props today' m]
    by (auto simp: page_filename_def postFilename_def)
  have 3: "properties p = Some props \<and> props ''Slug'' = Some sp \<and> p_rich_text sp = Some (x # xs)
        \<and> plain_text x = Some s0 \<and> trim s0 \<noteq> [] \<and> extractMeta today' p = Inr m \<longrightarrow>
        page_filename today' p = Inr (date m @ ''-'' @ trim s0 @ ''.md'')"
    using extractMeta_slug_given[of p props sp x xs s0 today' m]
    by (auto simp: page_filename_def postFilename_def)
  have 4: "postFilename d s = d @ ''-'' @ s @ ''.md''" by (simp add: postFilename_def)
  from 1 2 3 4 titleToSlug_lower[of t] show ?thesis by blast
qed

theorem postFilename_lowercase_from_title_witness:
  "toLowerCase ''2021-03-25'' = ''2021-03-25''
   \<and> toLowerCase (postFilename ''2021-03-25'' (titleToSlug ''Hello, World!''))
       = postFilename ''2021-03-25'' (titleToSlug ''Hello, World!'')
   \<and> properties page1 = Some page1_props \<and> page1_props ''Slug'' = None \<and> page1_props ''slug'' = None
   \<and> extractMeta ''2024-01-01'' page1 = Inr page1_meta
   \<and> page_filename ''2024-01-01'' page1 = Inr ''2021-03-25-hello-world.md''
   \<and> properties slug_page = Some slug_props
   \<and> slug_props ''Slug'' = Some (text_prop ''My-Post'')
   \<and> trim ''My-Post'' \<noteq> []
   \<and> page_filename ''2024-01-01'' slug_page = Inr ''2021-03-25-My-Post.md''"
proof -
  have d: "toLowerCase ''2021-03-25'' = ''2021-03-25''" by code_simp
  have h: "titleToSlug ''Hello, World!'' = ''hello-world''" by code_simp
  have p: "properties page1 = Some page1_props \<and> page1_props ''Slug'' = None
           \<and> page1_props ''slug'' = None"
    by (simp add: page1_def page1_props_def)
  have q: "properties slug_page = Some slug_props
           \<and> slug_props ''Slug'' = Some (text_prop ''My-Post'')
           \<and> p_rich_text (text_prop ''My-Post'') = Some (plain ''My-Post'' # [])
           \<and> plain_text (plain ''My-Post'') = Some ''My-Post''"
    by (simp add: slug_page_def slug_props_def text_prop_def empty_property_def plain_def)
  have r: "trim ''My-Post'' = ''My-Post''" by code_simp
  obtain m where m: "extractMeta ''2024-01-01'' slug_page = Inr m"
    using q extractMeta_Inr by blast
  note t1 = postFilename_lowercase_from_title
    [of "''2021-03-25''" _ "''Hello, World!''" page1 page1_props "''2024-01-01''" page1_meta]
  note t2 = postFilename_lowercase_from_title
    [of _ _ _ slug_page slug_props "''2024-01-01''" m "text_prop ''My-Post''"
       "plain ''My-Post''" "[]" "''My-Post''"]
  from t1 d have 1: "toLowerCase (postFilename ''2021-03-25'' (titleToSlug ''Hello, World!''))
       = postFilename ''2021-03-25'' (titleToSlug ''Hello, World!'')"
    by blast
  from t1 p example_page1_meta
  have "page_filename ''2024-01-01'' page1
          = Inr (date page1_meta @ ''-'' @ titleToSlug (title page1_meta) @ ''.md'')"
    by blast
  then have 2: "page_filename ''2024-01-01'' page1 = Inr ''2021-03-25-hello-world.md''"
    by (simp add: page1_meta_def h)
  from t2 q r m
  have 3: "page_filename ''2024-01-01'' slug_page = Inr (date m @ ''-'' @ trim ''My-Post'' @ ''.md'')"
    by simp
  have "page_filename ''2024-01-01'' slug_page = Inr ''2021-03-25-My-Post.md''" by code_simp
  with d 1 2 p q r example_page1_meta show ?thesis by simp
qed


section \<open>The slug of a page without a Slug property\<close>

lemma dropWhile_id_hd: "s = [] \<or> \<not> P (hd s) \<Longrightarrow> dropWhile P s = s"
  by (cases s) auto

lemma replace_runs_Cons:
  "replace_runs P [x] (c # cs) =
     (if P c then (if cs \<noteq> [] \<and> P (hd cs) then replace_runs P [x] cs
                   else x # replace_runs P [x] cs)
      else c # replace_runs P [x] cs)"
  by (cases cs) (auto simp: dropWhile_id_hd)

lemma replace_runs_Nil_iff: "replace_runs P [x] s = [] \<longleftrightarrow> s = []"
  by (cases s) auto

lemma replace_runs_snoc:
  "replace_runs P [x] (s @ [c]) =
     (if P c then (if s \<noteq> [] \<and> P (last s) then replace_runs P [x] s
                   else replace_runs P [x] s @ [x])
      else replace_runs P [x] s @ [c])"
proof (induction s)
  case Nil
  then show ?case by simp
next
  case (Cons a s)
  show ?case
  proof (cases s)
    case Nil
    then show ?thesis by simp
  next
    case (Cons b s')
    with Cons.IH show ?thesis
      by (simp only: append_Cons replace_runs_Cons) (auto split: if_splits)
  qed
qed

lemma replace_runs_rev: "replace_runs P [x] (rev s) = rev (replace_runs P [x] s)"
proof (induction s)
  case Nil
  then show ?case by simp
next
  case (Cons c cs)
  have "replace_runs P [x] (rev (c # cs)) = replace_runs P [x] (rev cs @ [c])" by simp
  also have "\<dots> = (if P c then (if rev cs \<noteq> [] \<and> P (last (rev cs)) then replace_runs P [x] (rev cs)
                   else replace_runs P [x] (rev cs) @ [x])
      else replace_runs P [x] (rev cs) @ [c])"
    by (rule replace_runs_snoc)
  also have "\<dots> = rev (replace_runs P [x] (c # cs))"
    unfolding replace_runs_Cons Cons.IH by (cases cs) (auto simp: last_rev)
  finally show ?case .
qed


lemma replace_runs_hd:
  "s \<noteq> [] \<Longrightarrow> \<not> P (hd s) \<Longrightarrow> replace_runs P r s \<noteq> [] \<and> hd (replace_runs P r s) = hd s"
  by (cases s) auto

lemma dropWhile_replace_runs:
  assumes "P x"
  shows "dropWhile P (replace_runs P [x] s) = replace_runs P [x] (dropWhile P s)"
proof (cases s)
  case Nil
  then show ?thesis by simp
next
  case (Cons c cs)
  let ?v = "dropWhile P cs"
  have v: "dropWhile P (replace_runs P [x] ?v) = replace_runs P [x] ?v"
  proof (cases "?v = []")
    case True
    show ?thesis unfolding True by simp
  next
    case False
    then have "\<not> P (hd ?v)" by (rule hd_dropWhile)
    with False replace_runs_hd[of ?v P "[x]"] show ?thesis
      by (intro dropWhile_id_hd) auto
  qed
  show ?thesis
  proof (cases "P c")
    case True
    with Cons assms v show ?thesis by simp
  next
    case False
    with Cons show ?thesis by simp
  qed
qed

lemma dropWhile_replace_runs_tl:
  assumes "P x"
  shows "dropWhile P (replace_runs P [x] s) =
     (if replace_runs P [x] s \<noteq> [] \<and> P (hd (replace_runs P [x] s))
      then tl (replace_runs P [x] s) else replace_runs P [x] s)"
proof (cases s)
  case Nil
  then show ?thesis by simp
next
  case (Cons c cs)
  show ?thesis
  proof (cases "P c")
    case True
    have "dropWhile P (replace_runs P [x] (dropWhile P cs)) = replace_runs P [x] (dropWhile P cs)"
      using dropWhile_replace_runs[of P x "dropWhile P cs", OF assms] by simp
    with Cons True assms show ?thesis by simp
  next
    case False
    with Cons show ?thesis by simp
  qed
qed

lemma lstrip_slug:
  "dropWhile is_hyphen (replace_runs is_hyphen ''-'' (replace_runs is_ws ''-'' s)) =
   dropWhile is_hyphen (replace_runs is_hyphen ''-'' (replace_runs is_ws ''-'' (dropWhile is_ws s)))"
proof (cases s)
  case Nil
  then show ?thesis by simp
next
  case (Cons c cs)
  have h: "is_hyphen CHR ''-''" by (simp add: is_hyphen_def)
  show ?thesis
  proof (cases "is_ws c")
    case True
    let ?y = "replace_runs is_ws ''-'' (dropWhile is_ws cs)"
    have "dropWhile is_hyphen (replace_runs is_hyphen ''-'' (dropWhile is_hyphen ?y))
        = dropWhile is_hyphen (replace_runs is_hyphen ''-'' ?y)"
      using dropWhile_replace_runs[of is_hyphen "CHR ''-''" ?y, OF h]
        dropWhile_replace_runs[of is_hyphen "CHR ''-''" "dropWhile is_hyphen ?y", OF h]
      by simp
    with Cons True h show ?thesis by simp
  next
    case False
    with Cons show ?thesis by simp
  qed
qed

lemma rstrip_slug:
  "rstrip is_hyphen (replace_runs is_hyphen ''-'' (replace_runs is_ws ''-'' s)) =
   rstrip is_hyphen (replace_runs is_hyphen ''-'' (replace_runs is_ws ''-'' (rstrip is_ws s)))"
proof -
  have "rev (replace_runs is_hyphen ''-'' (replace_runs is_ws ''-'' z))
      = replace_runs is_hyphen ''-'' (replace_runs is_ws ''-'' (rev z))" for z
    by (simp add: replace_runs_rev)
  then show ?thesis
    unfolding rstrip_def using lstrip_slug[of "rev s"] by simp
qed

lemma rstrip_Cons:
  "rstrip P (c # cs) = (if P c \<and> (\<forall>a \<in> set cs. P a) then [] else c # rstrip P cs)"
  by (auto simp: rstrip_def dropWhile_append)

lemma rstrip_all: "(\<forall>a \<in> set cs. P a) \<Longrightarrow> rstrip P cs = []"
  by (simp add: rstrip_def)

lemma strip_commute: "dropWhile P (rstrip P s) = rstrip P (dropWhile P s)"
proof (induction s)
  case Nil
  then show ?case by (simp add: rstrip_def)
next
  case (Cons c cs)
  show ?case
  proof (cases "P c")
    case True
    show ?thesis
    proof (cases "\<forall>a \<in> set cs. P a")
      case True
      with \<open>P c\<close> have 1: "rstrip P (c # cs) = []" by (simp add: rstrip_Cons)
      from True have 2: "dropWhile P cs = []" by simp
      have 3: "dropWhile P (c # cs) = dropWhile P cs" using \<open>P c\<close> by simp
      show ?thesis unfolding 1 3 2 by (simp add: rstrip_def)
    next
      case False
      with \<open>P c\<close> have "rstrip P (c # cs) = c # rstrip P cs" by (simp add: rstrip_Cons)
      with \<open>P c\<close> Cons.IH show ?thesis by simp
    qed
  next
    case False
    then show ?thesis by (simp add: rstrip_Cons)
  qed
qed

lemma trim_rstrip: "trim s = rstrip is_ws (dropWhile is_ws s)"
  by (simp add: trim_def rstrip_def)

lemma trim_hyphens_rstrip: "trim_hyphens s = rstrip is_hyphen (dropWhile is_hyphen s)"
  by (simp add: trim_hyphens_def rstrip_def)

lemma trim_hyphens_slug:
  "trim_hyphens (replace_runs is_hyphen ''-'' (replace_runs is_ws ''-'' (trim s))) =
   trim_hyphens (replace_runs is_hyphen ''-'' (replace_runs is_ws ''-'' s))"
proof -
  let ?G = "\<lambda>z. replace_runs is_hyphen ''-'' (replace_runs is_ws ''-'' z)"
  let ?s1 = "dropWhile is_ws s"
  have "trim_hyphens (?G (trim s)) = dropWhile is_hyphen (rstrip is_hyphen (?G (rstrip is_ws ?s1)))"
    by (simp add: trim_hyphens_rstrip trim_rstrip strip_commute)
  also have "\<dots> = dropWhile is_hyphen (rstrip is_hyphen (?G ?s1))"
    using rstrip_slug[of ?s1] by simp
  also have "\<dots> = rstrip is_hyphen (dropWhile is_hyphen (?G ?s1))"
    by (rule strip_commute)
  also have "\<dots> = rstrip is_hyphen (dropWhile is_hyphen (?G s))"
    using lstrip_slug[of s] by simp
  finally show ?thesis by (simp add: trim_hyphens_rstrip)
qed

lemma strip_ends_collapsed:
  "strip_ends (replace_runs is_hyphen ''-'' w) = trim_hyphens (replace_runs is_hyphen ''-'' w)"
proof -
  have h: "is_hyphen CHR ''-''" by (simp add: is_hyphen_def)
  let ?z = "replace_runs is_hyphen ''-'' w"
  let ?w1 = "dropWhile is_hyphen w"
  let ?z1 = "replace_runs is_hyphen ''-'' ?w1"
  have a: "(if ?z \<noteq> [] \<and> hd ?z = CHR ''-'' then tl ?z else ?z) = ?z1"
    using dropWhile_replace_runs_tl[of is_hyphen "CHR ''-''" w, OF h]
      dropWhile_replace_runs[of is_hyphen "CHR ''-''" w, OF h]
    by (simp add: is_hyphen_def)
  have "rev ?z1 = replace_runs is_hyphen ''-'' (rev ?w1)" by (simp add: replace_runs_rev)
  then have "dropWhile is_hyphen (rev ?z1) =
      (if rev ?z1 \<noteq> [] \<and> is_hyphen (hd (rev ?z1)) then tl (rev ?z1) else rev ?z1)"
    using dropWhile_replace_runs_tl[of is_hyphen "CHR ''-''" "rev ?w1", OF h] by simp
  then have b: "rstrip is_hyphen ?z1 = (if ?z1 \<noteq> [] \<and> last ?z1 = CHR ''-'' then butlast ?z1 else ?z1)"
    by (cases "?z1 = []") (auto simp: rstrip_def hd_rev is_hyphen_def butlast_rev [symmetric] split: if_splits)
  have "strip_ends ?z = rstrip is_hyphen ?z1"
    unfolding strip_ends_def Let_def a b ..
  also have "\<dots> = trim_hyphens ?z"
    using dropWhile_replace_runs[of is_hyphen "CHR ''-''" w, OF h] by (simp add: trim_hyphens_rstrip)
  finally show ?thesis .
qed

lemma titleToSlug_refines: "titleToSlug t = slugify_spec t"
  unfolding titleToSlug_def slugify_spec_def
  by (simp only: strip_ends_collapsed trim_hyphens_slug)


text \<open>
  C8. For a page whose property bag has no slug property, the slug is the slugification
  of the resolved title, and the slugification is what the specification says: lowercase,
  strip the characters that are no word character, whitespace or hyphen, turn each
  whitespace run into one hyphen, collapse repeated hyphens, and trim leading and trailing
  hyphens. The title \<^verbatim>\<open>Hello, World!\<close> gives \<^verbatim>\<open>hello-world\<close>.
\<close>

theorem slug_fallback_is_slugified_title:
  "(properties p = Some props \<and> props ''Slug'' = None \<and> props ''slug'' = None
      \<and> extractMeta today' p = Inr m \<longrightarrow>
      slug m = titleToSlug (title m) \<and> slug m = slugify_spec (title m))
   \<and> titleToSlug t = slugify_spec t
   \<and> titleToSlug ''Hello, World!'' = ''hello-world''"
proof -
  have h: "titleToSlug ''Hello, World!'' = ''hello-world''" by code_simp
  from extractMeta_slug_fallback[of p props today' m] titleToSlug_refines h
  show ?thesis by auto
qed

theorem slug_fallback_is_slugified_title_witness:
  "properties page1 = Some page1_props \<and> page1_props ''Slug'' = None \<and> page1_props ''slug'' = None
   \<and> extractMeta ''2024-01-01'' page1 = Inr page1_meta
   \<and> title page1_meta = ''Hello, World!''
   \<and> slug page1_meta = slugify_spec ''Hello, World!''
   \<and> slug page1_meta = ''hello-world''"
proof -
  have p: "properties page1 = Some page1_props \<and> page1_props ''Slug'' = None
           \<and> page1_props ''slug'' = None"
    by (simp add: page1_def page1_props_def)
  from slug_fallback_is_slugified_title [of page1 page1_props "''2024-01-01''" page1_meta] p
    example_page1_meta
  have "slug page1_meta = slugify_spec (title page1_meta)" by blast
  with p example_page1_meta show ?thesis by (simp add: page1_meta_def)
qed


section \<open>The identity token in the header\<close>

lemma buildFrontMatter_shape:
  "buildFrontMatter m t =
     join [CHR 0x0A] (header_lines m @ [''notion_id: '' @ JSON_stringify t, ''---''])"
  by (simp add: buildFrontMatter_def header_lines_def Let_def)

lemma find_skip_rest:
  "single_line l \<Longrightarrow> find_notion_id False (l @ CHR 0x0A # rest) = find_notion_id True rest"
  by (induction l) (auto simp: single_line_def is_line_terminator_def)

lemma match_needs_n: "s \<noteq> [] \<Longrightarrow> hd s \<noteq> CHR ''n'' \<Longrightarrow> match_notion_id_at s = None"
  by (cases s) (auto simp: match_notion_id_at_def)

lemma find_skip_line:
  assumes "single_line l" and "l \<noteq> []" and "hd l \<noteq> CHR ''n''"
  shows "find_notion_id True (l @ CHR 0x0A # rest) = find_notion_id True rest"
proof -
  from assms(2) obtain c l' where l: "l = c # l'" by (cases l) auto
  with assms(3) have "match_notion_id_at (c # l' @ CHR 0x0A # rest) = None"
    by (intro match_needs_n) auto
  moreover from assms(1) l have "single_line l'" and "\<not> is_line_terminator c"
    by (auto simp: single_line_def)
  ultimately show ?thesis using find_skip_rest[of l' rest] l by simp
qed

lemma json_escape_id_char: "is_id_char c \<Longrightarrow> json_escape c = [c]"
  by (auto simp: is_id_char_def json_escape_def)

lemma JSON_stringify_token: "list_all is_id_char t \<Longrightarrow> JSON_stringify t = CHR 0x22 # t @ [CHR 0x22]"
proof -
  assume "list_all is_id_char t"
  then have "concat (map json_escape t) = t"
    by (induction t) (auto simp: json_escape_id_char)
  then show ?thesis by (simp add: JSON_stringify_def)
qed

lemma match_token_line:
  assumes "is_token t"
  shows "match_notion_id_at (''notion_id: '' @ JSON_stringify t @ rest) = Some t"
proof -
  from assms have j: "JSON_stringify t = CHR 0x22 # t @ [CHR 0x22]"
    by (simp add: is_token_def JSON_stringify_token)
  have w: "\<not> is_ws (CHR 0x22)" by (simp add: is_ws_def)
  from assms have t: "length t = 36" "list_all is_id_char t" by (auto simp: is_token_def)
  show ?thesis unfolding j using w t
    by (simp add: match_notion_id_at_def is_ws_def)
qed

lemma hex_digit_mem: "hex_digit n \<in> set ''0123456789abcdef''"
  unfolding hex_digit_def by (rule nth_mem) simp

lemma hex_digit_not_terminator: "\<not> is_line_terminator (hex_digit n)"
  using hex_digit_mem[of n] by (auto simp: is_line_terminator_def)

lemma json_escape_single_line: "single_line (json_escape c)"
  using hex_digit_not_terminator
  by (auto simp: json_escape_def single_line_def is_line_terminator_def)

lemma single_line_append: "single_line (a @ b) = (single_line a \<and> single_line b)"
  by (auto simp: single_line_def)

lemma single_line_Cons: "single_line (c # s) = (\<not> is_line_terminator c \<and> single_line s)"
  by (auto simp: single_line_def)

lemma single_line_Nil: "single_line []"
  by (simp add: single_line_def)

lemma JSON_stringify_single_line: "single_line (JSON_stringify s)"
proof -
  have "single_line (concat (map json_escape s))"
    using json_escape_single_line by (induction s) (auto simp: single_line_def)
  then show ?thesis
    by (auto simp: JSON_stringify_def single_line_def is_line_terminator_def)
qed

lemma join_tags_single_line: "single_line (join '', '' (map JSON_stringify ts))"
proof (induction ts rule: induct_list012)
  case 1
  then show ?case by (simp add: single_line_def)
next
  case (2 x)
  then show ?case by (simp add: JSON_stringify_single_line)
next
  case (3 x y zs)
  from 3 show ?case
    by (simp add: single_line_append single_line_Cons is_line_terminator_def
        JSON_stringify_single_line)
qed

lemma header_lines_skippable:
  assumes "single_line (date m)" and "single_line (slug m)"
  shows "\<forall>l \<in> set (header_lines m). skippable l"
proof -
  show ?thesis using assms
    by (auto simp: header_lines_def skippable_def single_line_append single_line_Cons
        single_line_Nil is_line_terminator_def JSON_stringify_single_line join_tags_single_line)
qed

lemma join_Cons: "ls \<noteq> [] \<Longrightarrow> join sep (l # ls) = l @ sep @ join sep ls"
  by (cases ls) auto

lemma find_after_lines:
  assumes "\<forall>l \<in> set ls. skippable l" and "is_token t"
  shows "find_notion_id True
           (join [CHR 0x0A] (ls @ [''notion_id: '' @ JSON_stringify t, ''---'']) @ rest) = Some t"
  using assms(1)
proof (induction ls)
  case Nil
  have "match_notion_id_at (''notion_id: '' @ JSON_stringify t @ (CHR 0x0A # ''---'' @ rest)) = Some t"
    using assms(2) by (rule match_token_line)
  then show ?case by simp
next
  case (Cons l ls)
  then have s: "single_line l" "l \<noteq> []" "hd l \<noteq> CHR ''n''"
    by (auto simp: skippable_def)
  have "join [CHR 0x0A] ((l # ls) @ [''notion_id: '' @ JSON_stringify t, ''---'']) @ rest
      = l @ CHR 0x0A # (join [CHR 0x0A] (ls @ [''notion_id: '' @ JSON_stringify t, ''---'']) @ rest)"
    by (simp add: join_Cons)
  with find_skip_line[OF s] Cons show ?case by simp
qed

text \<open>
  The token is recovered from the file content whenever the date and the slug, which are
  written into the header as they are, hold no line break.
\<close>

lemma header_token_roundtrip:
  assumes "is_token t" and "single_line (date m)" and "single_line (slug m)"
  shows "extract_notion_id (file_content (buildFrontMatter m t) body) = Some t"
  using find_after_lines[OF header_lines_skippable[OF assms(2,3)] assms(1)]
  by (simp add: extract_notion_id_def file_content_def buildFrontMatter_shape)


text \<open>
  C3 fails on the code. The slug is written into the header unquoted. With a slug of two
  lines whose second line has the shape of the token line, the pattern matches that line
  first, and the token recovered from the file is not the page's token.
\<close>

theorem notion_id_lost_with_multiline_slug:
  "extractMeta ''2024-01-01'' injected_page = Inr injected_meta
   \<and> is_token (page_id injected_page)
   \<and> extract_notion_id
         (file_content (buildFrontMatter injected_meta (page_id injected_page)) ''body'')
       = Some ''00000000-0000-0000-0000-000000000000''
   \<and> page_id injected_page \<noteq> ''00000000-0000-0000-0000-000000000000''"
  by code_simp

end
